theory Spec2Isabelle
  imports Complex_Main "HOL-Library.Word" "HOL-Library.List_Lexorder" "HOL-Library.Multiset"
begin

text \<open>
  A shallow embedding of \<open>src/authorization.ts\<close>, the BCE-Auth-V1 request signer:
  \<open>normalize\<close>, \<open>canonicalizeSearchParams\<close>, \<open>canonicalizeHeaders\<close>, \<open>hash\<close> and the
  class \<open>Authorization\<close> with \<open>createContext\<close> and \<open>authorize\<close>. The built-ins of the
  language that the signer calls are modelled first: strings, \<open>join\<close>, \<open>startsWith\<close>,
  \<open>trim\<close>, the printing of numbers and \<open>encodeURIComponent\<close>. An exception thrown by
  the source is a value of the model: \<open>None\<close> where only URIError can be thrown, a sum
  with the type \<open>error\<close> in \<open>createContext\<close> and \<open>authorize\<close>.
\<close>

section \<open>Strings of the host language\<close>

text \<open>
  A JavaScript string is a finite sequence of 16-bit code units (UTF-16). Comparison
  (\<open>===\<close>) is equality of the sequences, and the default \<open>Array.prototype.sort\<close>
  orders strings lexicographically by code unit, which is the order
  \<open>HOL-Library.List_Lexorder\<close> puts on lists of words (unsigned comparison).
\<close>

type_synonym codeunit = "16 word"
type_synonym jsstring = "codeunit list"

text \<open>String literals of the source, written as ASCII text.\<close>

definition js :: "string \<Rightarrow> jsstring" where
  "js s = map (\<lambda>c. of_nat (of_char c)) s"

text \<open>\<open>Array.prototype.join\<close>: the elements separated by \<open>sep\<close>; the empty array gives \<open>''''\<close>.\<close>

fun join :: "jsstring \<Rightarrow> jsstring list \<Rightarrow> jsstring" where
  "join sep [] = []"
| "join sep [x] = x"
| "join sep (x # y # ys) = x @ sep @ join sep (y # ys)"

text \<open>\<open>String.prototype.startsWith\<close>.\<close>

definition startsWith :: "jsstring \<Rightarrow> jsstring \<Rightarrow> bool" where
  "startsWith s p = (take (length p) s = p)"

text \<open>
  \<open>String.prototype.trim\<close> removes leading and trailing code units that are WhiteSpace or
  LineTerminator in ECMAScript: TAB, LF, VT, FF, CR, SP, NBSP, U+1680, U+2000 to U+200A,
  U+2028, U+2029, U+202F, U+205F, U+3000 and U+FEFF.
\<close>

definition isWhiteSpace :: "codeunit \<Rightarrow> bool" where
  "isWhiteSpace c =
     (c = 0x9 \<or> c = 0xA \<or> c = 0xB \<or> c = 0xC \<or> c = 0xD \<or> c = 0x20 \<or> c = 0xA0 \<or>
      c = 0x1680 \<or> (0x2000 \<le> c \<and> c \<le> 0x200A) \<or> c = 0x2028 \<or> c = 0x2029 \<or>
      c = 0x202F \<or> c = 0x205F \<or> c = 0x3000 \<or> c = 0xFEFF)"

definition trim :: "jsstring \<Rightarrow> jsstring" where
  "trim s = rev (dropWhile isWhiteSpace (rev (dropWhile isWhiteSpace s)))"

text \<open>
  \<open>String.prototype.toLowerCase\<close> follows the Unicode case mapping tables, which are the
  host's and not this repository's: the functions below take it as the parameter \<open>lc\<close>.
  On strings of ASCII characters the built-in replaces \<open>A\<close> to \<open>Z\<close> by \<open>a\<close> to \<open>z\<close>
  and nothing else; \<open>toLowerCaseASCII\<close> is that restriction, used at concrete inputs.
\<close>

definition toLowerCaseASCII :: "jsstring \<Rightarrow> jsstring" where
  "toLowerCaseASCII s = map (\<lambda>c. if 0x41 \<le> c \<and> c \<le> 0x5A then c + 0x20 else c) s"

text \<open>
  A JavaScript number is an IEEE 754 double: NaN, the two infinities, negative zero and
  the finite values, which are rational numbers (\<open>Finite 0\<close> is the positive zero). Not
  every rational is a double; the signer does no arithmetic on a number, it only tests
  its truthiness and prints it.
\<close>

datatype jsnumber = NaN | PosInfinity | NegInfinity | NegZero | Finite rat

text \<open>\<open>ToBoolean\<close> of a number: \<open>+0\<close>, \<open>-0\<close> and NaN are falsy.\<close>

definition falsy :: "jsnumber \<Rightarrow> bool" where
  "falsy n = (n = NaN \<or> n = NegZero \<or> n = Finite 0)"

text \<open>
  Template literals print a number with \<open>Number::toString\<close>, whose shortest decimal
  representation of a double is the host's: the functions below take it as the parameter
  \<open>numToString\<close>. The built-in prints NaN, the infinities and the zeros by name and an
  integer of magnitude below \<open>2^53\<close> as an optional minus sign and its decimal digits;
  \<open>numberToStringInteger\<close> is that restriction (it prints nothing for the other finite
  values), used at concrete inputs.
\<close>

definition digitChar :: "nat \<Rightarrow> codeunit" where
  "digitChar d = of_nat (48 + d)"

function decimal :: "nat \<Rightarrow> jsstring" where
  "decimal n = (if n < 10 then [digitChar n] else decimal (n div 10) @ [digitChar (n mod 10)])"
  by pat_completeness auto
termination
  by (relation "measure id") auto

declare decimal.simps [simp del]

definition isSafeInteger :: "rat \<Rightarrow> bool" where
  "isSafeInteger q = (of_int \<lfloor>q\<rfloor> = q \<and> \<bar>q\<bar> < 2 ^ 53)"

definition numberToStringInteger :: "jsnumber \<Rightarrow> jsstring" where
  "numberToStringInteger n =
     (case n of
        NaN \<Rightarrow> js ''NaN''
      | PosInfinity \<Rightarrow> js ''Infinity''
      | NegInfinity \<Rightarrow> js ''-Infinity''
      | NegZero \<Rightarrow> js ''0''
      | Finite q \<Rightarrow>
          if isSafeInteger q
          then (if q < 0 then js ''-'' @ decimal (nat (- \<lfloor>q\<rfloor>)) else decimal (nat \<lfloor>q\<rfloor>))
          else [])"

section \<open>encodeURIComponent\<close>

text \<open>
  ECMAScript's \<open>Encode(string, uriUnreserved)\<close>. Code units of the unreserved set
  (letters, digits and \<open>- _ . ! ~ * ' ( )\<close>) are copied. Any other code unit starts a code
  point: a code unit that is no surrogate stands for itself, a leading surrogate followed
  by a trailing one stands for a supplementary code point, and an unpaired surrogate
  throws URIError (the result \<open>None\<close>). The code point's UTF-8 octets are written as
  \<open>%XX\<close> with upper-case hexadecimal digits.
\<close>

definition uriUnreserved :: "codeunit \<Rightarrow> bool" where
  "uriUnreserved c =
     ((0x41 \<le> c \<and> c \<le> 0x5A) \<or> (0x61 \<le> c \<and> c \<le> 0x7A) \<or> (0x30 \<le> c \<and> c \<le> 0x39) \<or>
      c \<in> set (js ''-_.!~*'' @ [0x27] @ js ''()''))"

definition isLeadingSurrogate :: "codeunit \<Rightarrow> bool" where
  "isLeadingSurrogate c = (0xD800 \<le> c \<and> c \<le> 0xDBFF)"

definition isTrailingSurrogate :: "codeunit \<Rightarrow> bool" where
  "isTrailingSurrogate c = (0xDC00 \<le> c \<and> c \<le> 0xDFFF)"

definition surrogatePairToCodePoint :: "codeunit \<Rightarrow> codeunit \<Rightarrow> nat" where
  "surrogatePairToCodePoint lead trail =
     (unat lead - 0xD800) * 0x400 + (unat trail - 0xDC00) + 0x10000"

definition utf8 :: "nat \<Rightarrow> nat list" where
  "utf8 cp =
     (if cp < 0x80 then [cp]
      else if cp < 0x800 then [0xC0 + cp div 0x40, 0x80 + cp mod 0x40]
      else if cp < 0x10000 then
        [0xE0 + cp div 0x1000, 0x80 + (cp div 0x40) mod 0x40, 0x80 + cp mod 0x40]
      else
        [0xF0 + cp div 0x40000, 0x80 + (cp div 0x1000) mod 0x40,
         0x80 + (cp div 0x40) mod 0x40, 0x80 + cp mod 0x40])"

definition hexDigit :: "nat \<Rightarrow> codeunit" where
  "hexDigit d = (if d < 10 then of_nat (48 + d) else of_nat (55 + d))"

definition percentOctet :: "nat \<Rightarrow> jsstring" where
  "percentOctet b = [0x25, hexDigit (b div 16), hexDigit (b mod 16)]"

fun Encode :: "jsstring \<Rightarrow> jsstring option" where
  "Encode [] = Some []"
| "Encode (c # cs) =
     (if uriUnreserved c then map_option (\<lambda>r. c # r) (Encode cs)
      else if \<not> isLeadingSurrogate c \<and> \<not> isTrailingSurrogate c then
        map_option (\<lambda>r. concat (map percentOctet (utf8 (unat c))) @ r) (Encode cs)
      else if isTrailingSurrogate c then None
      else
        (case cs of
           [] \<Rightarrow> None
         | d # ds \<Rightarrow>
             if \<not> isTrailingSurrogate d then None
             else map_option
                    (\<lambda>r. concat (map percentOctet (utf8 (surrogatePairToCodePoint c d))) @ r)
                    (Encode ds)))"

definition encodeURIComponent :: "jsstring \<Rightarrow> jsstring option" where
  "encodeURIComponent s = Encode s"

section \<open>The signer\<close>

subsection \<open>normalize\<close>

definition NORMALIZE_MAP :: "(codeunit \<times> jsstring) list" where
  "NORMALIZE_MAP =
     [(0x21, js ''%21''), (0x27, js ''%27''), (0x28, js ''%28''), (0x29, js ''%29''),
      (0x2A, js ''%2A'')]"

text \<open>
  \<open>.replace(/[!'()*]/g, v => NORMALIZE_MAP[v])\<close>: every code unit of the class is replaced
  by its entry of the table (a missing entry would print as \<open>undefined\<close>).
\<close>

definition replaceReserved :: "jsstring \<Rightarrow> jsstring" where
  "replaceReserved s =
     concat (map (\<lambda>v. if v \<in> set ([0x21, 0x27, 0x28, 0x29, 0x2A])
                       then (case map_of NORMALIZE_MAP v of
                               Some r \<Rightarrow> r
                             | None \<Rightarrow> js ''undefined'')
                       else [v]) s)"

definition normalize :: "jsstring \<Rightarrow> jsstring option" where
  "normalize v = map_option replaceReserved (encodeURIComponent v)"

subsection \<open>canonicalizeSearchParams\<close>

text \<open>
  The inner \<open>canonicalize\<close> returns the empty array for an \<open>authorization\<close> key and one
  string otherwise; \<open>flatMap\<close> concatenates the results. A URIError thrown by \<open>normalize\<close>
  ends the whole call (\<open>None\<close>).
\<close>

definition canonicalize :: "(jsstring \<Rightarrow> jsstring) \<Rightarrow> jsstring \<times> jsstring \<Rightarrow> jsstring list option" where
  "canonicalize lc p =
     (case p of (key, value) \<Rightarrow>
        if lc key = js ''authorization'' then Some []
        else map_option (\<lambda>v. [key @ js ''='' @ v]) (normalize value))"

fun flatMap :: "('a \<Rightarrow> 'b list option) \<Rightarrow> 'a list \<Rightarrow> 'b list option" where
  "flatMap f [] = Some []"
| "flatMap f (x # xs) =
     (case f x of
        None \<Rightarrow> None
      | Some ys \<Rightarrow> map_option (\<lambda>r. ys @ r) (flatMap f xs))"

definition canonicalizeSearchParams ::
  "(jsstring \<Rightarrow> jsstring) \<Rightarrow> (jsstring \<times> jsstring) list option \<Rightarrow> jsstring option" where
  "canonicalizeSearchParams lc params =
     (case params of
        None \<Rightarrow> Some []
      | Some ps \<Rightarrow> map_option (\<lambda>es. join (js ''&'') (sort es)) (flatMap (canonicalize lc) ps))"

subsection \<open>canonicalizeHeaders\<close>

text \<open>
  \<open>headers\<close> is the list \<open>Object.entries(headers)\<close> in its enumeration order. The values are
  strings, as \<open>Record<string, string>\<close> declares them, so the value is always trimmed and
  is truthy when it is not empty.
\<close>

definition DEFAULT_HEADERS_TO_SIGN :: "jsstring list" where
  "DEFAULT_HEADERS_TO_SIGN =
     [js ''host'', js ''content-md5'', js ''content-length'', js ''content-type'']"

record CanonicalizeHeadersContext =
  ctx_signedHeaderNames :: "jsstring list"
  ctx_canonicalizedHeaders :: "jsstring list"

record CanonicalizeHeadersResult =
  res_signedHeaderNames :: "jsstring list"
  res_canonicalizedHeaders :: jsstring

text \<open>The callback of \<open>reduce\<close>.\<close>

definition headerReducer ::
  "(jsstring \<Rightarrow> jsstring) \<Rightarrow> jsstring list \<Rightarrow> CanonicalizeHeadersContext \<Rightarrow>
   jsstring \<times> jsstring \<Rightarrow> CanonicalizeHeadersContext option" where
  "headerReducer lc headerNamesToSign result entry =
     (case entry of (name, value) \<Rightarrow>
        let headerName = lc name;
            headerValue = trim value
        in if headerValue \<noteq> [] \<and>
              (headerName \<in> set headerNamesToSign \<or> startsWith headerName (js ''x-bce-''))
           then
             (case normalize headerName of
                None \<Rightarrow> None
              | Some n \<Rightarrow>
                  (case normalize headerValue of
                     None \<Rightarrow> None
                   | Some v \<Rightarrow>
                       Some \<lparr>ctx_signedHeaderNames = ctx_signedHeaderNames result @ [headerName],
                             ctx_canonicalizedHeaders =
                               ctx_canonicalizedHeaders result @ [n @ js '':'' @ v]\<rparr>))
           else Some result)"

fun reduce :: "('b \<Rightarrow> 'a \<Rightarrow> 'b option) \<Rightarrow> 'a list \<Rightarrow> 'b \<Rightarrow> 'b option" where
  "reduce f [] acc = Some acc"
| "reduce f (x # xs) acc =
     (case f acc x of
        None \<Rightarrow> None
      | Some acc' \<Rightarrow> reduce f xs acc')"

text \<open>The default parameter value applies when the argument is \<open>undefined\<close> (\<open>None\<close>).\<close>

definition canonicalizeHeaders ::
  "(jsstring \<Rightarrow> jsstring) \<Rightarrow> (jsstring \<times> jsstring) list \<Rightarrow> jsstring list option \<Rightarrow>
   CanonicalizeHeadersResult option" where
  "canonicalizeHeaders lc headers headerNamesToSign =
     (case reduce
             (headerReducer lc
                (case headerNamesToSign of None \<Rightarrow> DEFAULT_HEADERS_TO_SIGN | Some ns \<Rightarrow> ns))
             headers
             \<lparr>ctx_signedHeaderNames = [], ctx_canonicalizedHeaders = []\<rparr> of
        None \<Rightarrow> None
      | Some r \<Rightarrow>
          Some \<lparr>res_signedHeaderNames = ctx_signedHeaderNames r,
                res_canonicalizedHeaders = join [0x0A] (sort (ctx_canonicalizedHeaders r))\<rparr>)"

subsection \<open>hash\<close>

text \<open>
  \<open>node:crypto\<close> is the host's: \<open>createHmac(algorithm, key)\<close>, \<open>update(data)\<close> and
  \<open>digest('hex')\<close> together are the parameter \<open>hmacHex\<close>, which returns the digest or
  the error the primitive throws.
\<close>

definition hash ::
  "(jsstring \<Rightarrow> jsstring \<Rightarrow> jsstring \<Rightarrow> 'x + jsstring) \<Rightarrow> jsstring \<Rightarrow> jsstring \<Rightarrow> 'x + jsstring" where
  "hash hmacHex key data = hmacHex (js ''sha256'') key data"

subsection \<open>Authorization\<close>

record BceCredential =
  ak :: jsstring
  sk :: jsstring

text \<open>The field \<open>method\<close> of \<open>RequestInfo\<close> is written \<open>method'\<close>.\<close>

record RequestInfo =
  params :: "(jsstring \<times> jsstring) list option"
  headers :: "(jsstring \<times> jsstring) list"
  method' :: jsstring
  url :: jsstring

record Options =
  timestamp :: jsstring
  headerNamesToSign :: "jsstring list option"
  expireInSeconds :: "jsnumber option"

record SignatureContext =
  canonicalRequest :: jsstring
  signedHeaderNames :: "jsstring list"
  authStringPrefix :: jsstring
  signingKey :: jsstring
  signature :: jsstring

datatype 'x error = URIError | HmacError 'x

text \<open>\<open>a || b\<close> on an optional number: \<open>undefined\<close> and the falsy numbers give \<open>b\<close>.\<close>

definition orElse :: "jsnumber option \<Rightarrow> jsnumber \<Rightarrow> jsnumber" where
  "orElse a b = (case a of None \<Rightarrow> b | Some n \<Rightarrow> if falsy n then b else n)"

definition createContext ::
  "(jsstring \<Rightarrow> jsstring \<Rightarrow> jsstring \<Rightarrow> 'x + jsstring) \<Rightarrow> (jsstring \<Rightarrow> jsstring) \<Rightarrow>
   (jsnumber \<Rightarrow> jsstring) \<Rightarrow> BceCredential \<Rightarrow> RequestInfo \<Rightarrow> Options \<Rightarrow>
   'x error + SignatureContext" where
  "createContext hmacHex lc numToString credentials request options =
     (case canonicalizeHeaders lc (headers request) (headerNamesToSign options) of
        None \<Rightarrow> Inl URIError
      | Some hs \<Rightarrow>
          (case canonicalizeSearchParams lc (params request) of
             None \<Rightarrow> Inl URIError
           | Some query \<Rightarrow>
               let canonicalRequestParts =
                     [method' request, url request, query, res_canonicalizedHeaders hs];
                   creq = join [0x0A] canonicalRequestParts;
                   prefix = js ''bce-auth-v1/'' @ ak credentials @ js ''/'' @ timestamp options @
                            js ''/'' @ numToString (orElse (expireInSeconds options) (Finite 1800))
               in (case hash hmacHex (sk credentials) prefix of
                     Inl e \<Rightarrow> Inl (HmacError e)
                   | Inr skey \<Rightarrow>
                       (case hash hmacHex skey creq of
                          Inl e \<Rightarrow> Inl (HmacError e)
                        | Inr sig \<Rightarrow>
                            Inr \<lparr>canonicalRequest = creq,
                                 signedHeaderNames = res_signedHeaderNames hs,
                                 authStringPrefix = prefix,
                                 signingKey = skey,
                                 signature = sig\<rparr>))))"

definition authorize ::
  "(jsstring \<Rightarrow> jsstring \<Rightarrow> jsstring \<Rightarrow> 'x + jsstring) \<Rightarrow> (jsstring \<Rightarrow> jsstring) \<Rightarrow>
   (jsnumber \<Rightarrow> jsstring) \<Rightarrow> BceCredential \<Rightarrow> RequestInfo \<Rightarrow> Options \<Rightarrow> 'x error + jsstring" where
  "authorize hmacHex lc numToString credentials request options =
     (case createContext hmacHex lc numToString credentials request options of
        Inl e \<Rightarrow> Inl e
      | Inr context \<Rightarrow>
          Inr (authStringPrefix context @ js ''/'' @ join (js '';'') (signedHeaderNames context) @
               js ''/'' @ signature context))"

section \<open>Notions the properties are stated with\<close>

subsection \<open>Percent-decoding\<close>

text \<open>
  The decoder of the round-trip property: \<open>%XY\<close> stands for the character of code
  \<open>16 X + Y\<close> (below 128: an escape from 128 on is part of a multi-byte sequence, which
  printable ASCII never produces and which is not decoded here), any other character
  stands for itself, and a \<open>%\<close> without two hexadecimal digits is malformed.
\<close>

definition hexValue :: "codeunit \<Rightarrow> nat option" where
  "hexValue c =
     (if 0x30 \<le> c \<and> c \<le> 0x39 then Some (unat c - 48)
      else if 0x41 \<le> c \<and> c \<le> 0x46 then Some (unat c - 55)
      else if 0x61 \<le> c \<and> c \<le> 0x66 then Some (unat c - 87)
      else None)"

fun percentDecode :: "jsstring \<Rightarrow> jsstring option" where
  "percentDecode [] = Some []"
| "percentDecode (c # cs) =
     (if c = 0x25 then
        (case cs of
           h # l # rest \<Rightarrow>
             (case (hexValue h, hexValue l) of
                (Some a, Some b) \<Rightarrow>
                  if 16 * a + b < 128
                  then map_option (\<lambda>r. of_nat (16 * a + b) # r) (percentDecode rest)
                  else None
              | _ \<Rightarrow> None)
         | _ \<Rightarrow> None)
      else map_option (\<lambda>r. c # r) (percentDecode cs))"

definition printableASCII :: "codeunit \<Rightarrow> bool" where
  "printableASCII c = (0x20 \<le> c \<and> c \<le> 0x7E)"

text \<open>The unreserved set of the scheme: \<open>A-Z a-z 0-9 - _ . ~\<close>.\<close>

definition unreserved :: "codeunit \<Rightarrow> bool" where
  "unreserved c =
     ((0x41 \<le> c \<and> c \<le> 0x5A) \<or> (0x61 \<le> c \<and> c \<le> 0x7A) \<or> (0x30 \<le> c \<and> c \<le> 0x39) \<or>
      c \<in> set (js ''-_.~''))"

definition escapeUnit :: "codeunit \<Rightarrow> jsstring" where
  "escapeUnit c = (if unreserved c then [c] else percentOctet (unat c))"

subsection \<open>Selection and entries of the canonical strings\<close>

text \<open>A query parameter is kept unless its lower-cased key is \<open>authorization\<close>.\<close>

definition paramKept :: "(jsstring \<Rightarrow> jsstring) \<Rightarrow> jsstring \<times> jsstring \<Rightarrow> bool" where
  "paramKept lc p = (lc (fst p) \<noteq> js ''authorization'')"

text \<open>The entry of a kept parameter: the key as it is, \<open>=\<close>, the normalized value.\<close>

definition paramEntry :: "jsstring \<times> jsstring \<Rightarrow> jsstring option" where
  "paramEntry p = map_option (\<lambda>v. fst p @ js ''='' @ v) (normalize (snd p))"

text \<open>
  The query canonicalizer in the words of the specification, which normalizes the key as
  well as the value.
\<close>

definition canonicalizeParams_spec ::
  "(jsstring \<Rightarrow> jsstring) \<Rightarrow> (jsstring \<times> jsstring) list option \<Rightarrow> jsstring option" where
  "canonicalizeParams_spec lc ps_opt =
     (case ps_opt of
        None \<Rightarrow> Some []
      | Some ps \<Rightarrow>
          map_option (\<lambda>es. join (js ''&'') (sort es))
            (those (map (\<lambda>p. case normalize (fst p) of
                                None \<Rightarrow> None
                              | Some k \<Rightarrow> map_option (\<lambda>v. k @ js ''='' @ v) (normalize (snd p)))
                      (filter (paramKept lc) ps))))"

text \<open>
  A header is included when its trimmed value is not empty and its lower-cased name is
  listed or starts with \<open>x-bce-\<close>.
\<close>

definition headerIncluded ::
  "(jsstring \<Rightarrow> jsstring) \<Rightarrow> jsstring list \<Rightarrow> jsstring \<times> jsstring \<Rightarrow> bool" where
  "headerIncluded lc names h =
     (trim (snd h) \<noteq> [] \<and> (lc (fst h) \<in> set names \<or> startsWith (lc (fst h)) (js ''x-bce-'')))"

text \<open>The entry of an included header: normalized lower-cased name, \<open>:\<close>, normalized trimmed value.\<close>

definition headerEntry :: "(jsstring \<Rightarrow> jsstring) \<Rightarrow> jsstring \<times> jsstring \<Rightarrow> jsstring option" where
  "headerEntry lc h =
     (case normalize (lc (fst h)) of
        None \<Rightarrow> None
      | Some n \<Rightarrow> map_option (\<lambda>v. n @ js '':'' @ v) (normalize (trim (snd h))))"

subsection \<open>The sign of a number\<close>

definition isPositive :: "jsnumber \<Rightarrow> bool" where
  "isPositive n = (case n of PosInfinity \<Rightarrow> True | Finite q \<Rightarrow> 0 < q | _ \<Rightarrow> False)"

definition isNegative :: "jsnumber \<Rightarrow> bool" where
  "isNegative n = (case n of NegInfinity \<Rightarrow> True | Finite q \<Rightarrow> q < 0 | _ \<Rightarrow> False)"

subsection \<open>Concrete inputs\<close>

text \<open>
  The request of the specification's golden scenario, and two instances of the HMAC
  primitive for concrete runs: one that accepts every key and returns the term
  \<open>hmac(key,data)\<close> as its digest, and one that throws on the empty key.
\<close>

definition goldenCredential :: BceCredential where
  "goldenCredential = \<lparr>ak = js ''AK'', sk = js ''SK''\<rparr>"

definition goldenRequest :: RequestInfo where
  "goldenRequest =
     \<lparr>params = None, headers = [(js ''Host'', js ''bj.bcebos.com'')],
      method' = js ''GET'', url = js ''/v1/object''\<rparr>"

definition goldenOptions :: Options where
  "goldenOptions =
     \<lparr>timestamp = js ''2015-04-27T08:23:49Z'', headerNamesToSign = None,
      expireInSeconds = None\<rparr>"

definition symbolicHmac :: "jsstring \<Rightarrow> jsstring \<Rightarrow> jsstring \<Rightarrow> string + jsstring" where
  "symbolicHmac algorithm key data = Inr (js ''hmac('' @ key @ js '','' @ data @ js '')'')"

definition strictHmac :: "jsstring \<Rightarrow> jsstring \<Rightarrow> jsstring \<Rightarrow> string + jsstring" where
  "strictHmac algorithm key data =
     (if key = [] then Inl ''empty key'' else symbolicHmac algorithm key data)"

text \<open>Two requests with the same headers and parameters in different orders.\<close>

definition reorderedRequestA :: RequestInfo where
  "reorderedRequestA =
     \<lparr>params = Some [(js ''b'', js ''2''), (js ''a'', js ''1'')],
      headers = [(js ''Host'', js ''bj.bcebos.com''), (js ''X-Bce-Date'', js ''d'')],
      method' = js ''GET'', url = js ''/v1/object''\<rparr>"

definition reorderedRequestB :: RequestInfo where
  "reorderedRequestB =
     \<lparr>params = Some [(js ''a'', js ''1''), (js ''b'', js ''2'')],
      headers = [(js ''X-Bce-Date'', js ''d''), (js ''Host'', js ''bj.bcebos.com'')],
      method' = js ''GET'', url = js ''/v1/object''\<rparr>"

section \<open>Properties\<close>

subsection \<open>Evaluation at concrete inputs\<close>

lemmas eval_defs =
  js_def normalize_def encodeURIComponent_def uriUnreserved_def isLeadingSurrogate_def
  isTrailingSurrogate_def utf8_def percentOctet_def hexDigit_def replaceReserved_def
  NORMALIZE_MAP_def trim_def isWhiteSpace_def toLowerCaseASCII_def startsWith_def
  canonicalize_def canonicalizeSearchParams_def headerReducer_def canonicalizeHeaders_def
  DEFAULT_HEADERS_TO_SIGN_def

subsection \<open>normalize on printable ASCII\<close>

lemma unat_of_nat16: "n < 65536 \<Longrightarrow> unat (of_nat n :: 16 word) = n"
  by (simp add: unat_of_nat)

lemma unat_hexDigit:
  assumes "d < 16" shows "unat (hexDigit d) = (if d < 10 then 48 + d else 55 + d)"
  using assms unat_of_nat16 [of "48 + d"] unat_of_nat16 [of "55 + d"]
  by (simp add: hexDigit_def del: of_nat_add)

lemma hexDigit_not_reserved:
  assumes "d < 16" shows "hexDigit d \<notin> set [0x21, 0x27, 0x28, 0x29, 0x2A]"
proof -
  have "48 \<le> unat (hexDigit d)"
    using unat_hexDigit [OF assms] by (simp split: if_splits)
  then show ?thesis by auto
qed

lemma hexValue_hexDigit:
  assumes "d < 16" shows "hexValue (hexDigit d) = Some d"
  using assms unat_hexDigit [OF assms]
  by (auto simp: hexValue_def word_le_nat_alt split: if_splits)

lemma replaceReserved_append:
  "replaceReserved (xs @ ys) = replaceReserved xs @ replaceReserved ys"
  by (simp add: replaceReserved_def)

lemma replaceReserved_Cons:
  "replaceReserved [x] = y \<Longrightarrow> replaceReserved (x # xs) = y @ replaceReserved xs"
  using replaceReserved_append [of "[x]" xs] by simp

lemma replaceReserved_percentOctet:
  assumes "b < 256"
  shows "replaceReserved (percentOctet b) = percentOctet b"
proof -
  have hi: "hexDigit (b div 16) \<notin> set [0x21, 0x27, 0x28, 0x29, 0x2A]"
    using assms by (intro hexDigit_not_reserved) simp
  have lo: "hexDigit (b mod 16) \<notin> set [0x21, 0x27, 0x28, 0x29, 0x2A]"
    by (rule hexDigit_not_reserved) simp
  show ?thesis
    using hi lo by (simp add: replaceReserved_def percentOctet_def)
qed

lemma percentDecode_percentOctet:
  assumes "b < 128"
  shows "percentDecode (percentOctet b @ r) = map_option (\<lambda>r. of_nat b # r) (percentDecode r)"
proof -
  have hi: "hexValue (hexDigit (b div 16)) = Some (b div 16)"
    using assms by (intro hexValue_hexDigit) simp
  have lo: "hexValue (hexDigit (b mod 16)) = Some (b mod 16)"
    by (rule hexValue_hexDigit) simp
  show ?thesis
    using assms by (simp add: percentOctet_def hi lo del: of_nat_add of_nat_mult)
qed

lemma printable_unat: "printableASCII c \<Longrightarrow> 32 \<le> unat c \<and> unat c \<le> 126"
  by (simp add: printableASCII_def word_le_nat_alt)

lemma printable_no_surrogate:
  "printableASCII c \<Longrightarrow> \<not> isLeadingSurrogate c \<and> \<not> isTrailingSurrogate c"
  by (auto simp: printableASCII_def isLeadingSurrogate_def isTrailingSurrogate_def
                 word_le_nat_alt)

lemma reserved_cases:
  "replaceReserved [0x21] = percentOctet 0x21" "replaceReserved [0x27] = percentOctet 0x27"
  "replaceReserved [0x28] = percentOctet 0x28" "replaceReserved [0x29] = percentOctet 0x29"
  "replaceReserved [0x2A] = percentOctet 0x2A"
  by (simp_all add: replaceReserved_def NORMALIZE_MAP_def js_def percentOctet_def hexDigit_def)

lemma uriUnreserved_iff:
  "uriUnreserved c = (unreserved c \<or> c \<in> set [0x21, 0x27, 0x28, 0x29, 0x2A])"
  by (auto simp: uriUnreserved_def unreserved_def js_def)

lemma unreserved_not_reserved: "unreserved c \<Longrightarrow> c \<notin> set [0x21, 0x27, 0x28, 0x29, 0x2A]"
  by (auto simp: unreserved_def js_def)

text \<open>One printable character: copied when unreserved, \<open>%XX\<close> of its code otherwise.\<close>

lemma normalize_Cons_printable:
  assumes "printableASCII c"
  shows "normalize (c # cs) = map_option (\<lambda>r. escapeUnit c @ r) (normalize cs)"
proof (cases "uriUnreserved c")
  case True
  show ?thesis
  proof (cases "unreserved c")
    case u: True
    then have "replaceReserved [c] = [c]"
      using unreserved_not_reserved [OF u] by (simp add: replaceReserved_def)
    then have "\<And>r. replaceReserved (c # r) = [c] @ replaceReserved r"
      by (rule replaceReserved_Cons)
    then show ?thesis
      using True u
      by (simp add: normalize_def encodeURIComponent_def escapeUnit_def option.map_comp comp_def)
  next
    case u: False
    with True have "c \<in> set [0x21, 0x27, 0x28, 0x29, 0x2A]"
      by (simp add: uriUnreserved_iff)
    then have "replaceReserved [c] = percentOctet (unat c)"
      using reserved_cases by auto
    then have "\<And>r. replaceReserved (c # r) = percentOctet (unat c) @ replaceReserved r"
      by (rule replaceReserved_Cons)
    then show ?thesis
      using True u
      by (simp add: normalize_def encodeURIComponent_def escapeUnit_def option.map_comp comp_def)
  qed
next
  case False
  then have u: "\<not> unreserved c" by (simp add: uriUnreserved_iff)
  have lt: "unat c < 128" using printable_unat [OF assms] by simp
  then have "replaceReserved (percentOctet (unat c)) = percentOctet (unat c)"
    by (intro replaceReserved_percentOctet) simp
  then show ?thesis
    using False u lt printable_no_surrogate [OF assms]
    by (simp add: normalize_def encodeURIComponent_def escapeUnit_def option.map_comp comp_def
                  utf8_def replaceReserved_append)
qed

lemma normalize_printable:
  "\<forall>c\<in>set s. printableASCII c \<Longrightarrow> normalize s = Some (concat (map escapeUnit s))"
proof (induction s)
  case Nil
  show ?case by (simp add: normalize_def encodeURIComponent_def replaceReserved_def)
next
  case (Cons c cs)
  then show ?case by (simp add: normalize_Cons_printable)
qed

lemma percentDecode_escapeUnit:
  assumes "printableASCII c"
  shows "percentDecode (escapeUnit c @ r) = map_option (\<lambda>r. c # r) (percentDecode r)"
proof (cases "unreserved c")
  case True
  then have "c \<noteq> 0x25" by (auto simp: unreserved_def js_def)
  with True show ?thesis by (simp add: escapeUnit_def)
next
  case False
  have "unat c < 128" using printable_unat [OF assms] by simp
  from percentDecode_percentOctet [OF this] False show ?thesis
    by (simp add: escapeUnit_def)
qed

lemma percentDecode_escaped:
  "\<forall>c\<in>set s. printableASCII c \<Longrightarrow> percentDecode (concat (map escapeUnit s)) = Some s"
  by (induction s) (simp_all add: percentDecode_escapeUnit)

lemma normalize_unreserved:
  assumes "\<forall>c\<in>set u. unreserved c" shows "normalize u = Some u"
proof -
  have p: "\<forall>c\<in>set u. printableASCII c"
    using assms by (auto simp: unreserved_def printableASCII_def js_def word_le_nat_alt)
  have "concat (map escapeUnit u) = u"
    using assms by (induction u) (simp_all add: escapeUnit_def)
  with normalize_printable [OF p] show ?thesis by simp
qed

text \<open>
  C8: for every string of printable ASCII characters, percent-decoding the output of
  \<open>normalize\<close> gives the string back; \<open>normalize\<close> writes \<open>!\<close>, \<open>'\<close>, \<open>(\<close>, \<open>)\<close>, \<open>*\<close> and
  the space as \<open>%21\<close>, \<open>%27\<close>, \<open>%28\<close>, \<open>%29\<close>, \<open>%2A\<close> and \<open>%20\<close>; and it leaves a string of
  unreserved characters (\<open>A-Z a-z 0-9 - _ . ~\<close>) as it is.
\<close>

theorem normalize_printable_roundtrip:
  "((\<forall>c\<in>set s. printableASCII c) \<longrightarrow>
      (\<exists>r. normalize s = Some r \<and> percentDecode r = Some s)) \<and>
   normalize (js ''!'') = Some (js ''%21'') \<and>
   normalize [0x27] = Some (js ''%27'') \<and>
   normalize (js ''('') = Some (js ''%28'') \<and>
   normalize (js '')'') = Some (js ''%29'') \<and>
   normalize (js ''*'') = Some (js ''%2A'') \<and>
   normalize (js '' '') = Some (js ''%20'') \<and>
   ((\<forall>c\<in>set u. unreserved c) \<longrightarrow> normalize u = Some u)"
proof -
  have roundtrip: "(\<forall>c\<in>set s. printableASCII c) \<longrightarrow>
      (\<exists>r. normalize s = Some r \<and> percentDecode r = Some s)"
    by (simp add: normalize_printable percentDecode_escaped)
  have specials:
    "normalize (js ''!'') = Some (js ''%21'')" "normalize [0x27] = Some (js ''%27'')"
    "normalize (js ''('') = Some (js ''%28'')" "normalize (js '')'') = Some (js ''%29'')"
    "normalize (js ''*'') = Some (js ''%2A'')" "normalize (js '' '') = Some (js ''%20'')"
    by (simp_all add: eval_defs)
  have plain: "(\<forall>c\<in>set u. unreserved c) \<longrightarrow> normalize u = Some u"
    by (simp add: normalize_unreserved)
  from roundtrip specials plain show ?thesis by blast
qed

theorem normalize_printable_roundtrip_witness:
  "normalize (js ''a b/c?d=%&~'') = Some (js ''a%20b%2Fc%3Fd%3D%25%26~'') \<and>
   percentDecode (js ''a%20b%2Fc%3Fd%3D%25%26~'') = Some (js ''a b/c?d=%&~'') \<and>
   normalize (js ''Az09-_.~'') = Some (js ''Az09-_.~'')"
proof -
  have p: "\<forall>c\<in>set (js ''a b/c?d=%&~''). printableASCII c"
    by (simp add: js_def printableASCII_def)
  have u: "\<forall>c\<in>set (js ''Az09-_.~''). unreserved c"
    by (simp add: js_def unreserved_def)
  have n: "normalize (js ''a b/c?d=%&~'') = Some (js ''a%20b%2Fc%3Fd%3D%25%26~'')"
    by (simp add: eval_defs)
  from normalize_printable_roundtrip [of "js ''a b/c?d=%&~''" "js ''Az09-_.~''"] p u n
  show ?thesis by auto
qed

subsection \<open>The canonicalizers as selections\<close>

lemma append_single: "(@) [a] = (#) a"
  by (rule ext) simp

lemma append_none: "(@) [] = (\<lambda>r. r)"
  by (rule ext) simp

lemma canonicalize_kept:
  "paramKept lc p \<Longrightarrow> canonicalize lc p = map_option (\<lambda>e. [e]) (paramEntry p)"
  by (cases p) (simp add: canonicalize_def paramKept_def paramEntry_def option.map_comp comp_def)

lemma canonicalize_dropped: "\<not> paramKept lc p \<Longrightarrow> canonicalize lc p = Some []"
  by (cases p) (simp add: canonicalize_def paramKept_def)

lemma flatMap_canonicalize:
  "flatMap (canonicalize lc) ps = those (map paramEntry (filter (paramKept lc) ps))"
proof (induction ps)
  case Nil
  show ?case by simp
next
  case (Cons p ps)
  show ?case
  proof (cases "paramKept lc p")
    case True
    then show ?thesis
      by (cases "paramEntry p")
         (simp_all add: Cons canonicalize_kept option.map_comp comp_def append_single)
  next
    case False
    then show ?thesis
      by (simp add: Cons canonicalize_dropped append_none option.map_ident)
  qed
qed

lemma canonicalizeSearchParams_eq:
  "canonicalizeSearchParams lc (Some ps) =
     map_option (\<lambda>es. join (js ''&'') (sort es)) (those (map paramEntry (filter (paramKept lc) ps)))"
  by (simp add: canonicalizeSearchParams_def flatMap_canonicalize)

lemma headerReducer_included:
  "headerIncluded lc names h \<Longrightarrow>
   headerReducer lc names acc h =
     map_option (\<lambda>e. \<lparr>ctx_signedHeaderNames = ctx_signedHeaderNames acc @ [lc (fst h)],
                      ctx_canonicalizedHeaders = ctx_canonicalizedHeaders acc @ [e]\<rparr>)
       (headerEntry lc h)"
  by (cases h; cases "normalize (lc (fst h))"; cases "normalize (trim (snd h))")
     (simp_all add: headerReducer_def headerIncluded_def headerEntry_def Let_def)

lemma headerReducer_excluded:
  "\<not> headerIncluded lc names h \<Longrightarrow> headerReducer lc names acc h = Some acc"
  by (cases h) (auto simp: headerReducer_def headerIncluded_def Let_def)

lemma reduce_headerReducer:
  "reduce (headerReducer lc names) hs acc =
     map_option
       (\<lambda>es. \<lparr>ctx_signedHeaderNames =
                 ctx_signedHeaderNames acc @ map (\<lambda>h. lc (fst h)) (filter (headerIncluded lc names) hs),
               ctx_canonicalizedHeaders = ctx_canonicalizedHeaders acc @ es\<rparr>)
       (those (map (headerEntry lc) (filter (headerIncluded lc names) hs)))"
proof (induction hs arbitrary: acc)
  case Nil
  show ?case by simp
next
  case (Cons h hs)
  show ?case
  proof (cases "headerIncluded lc names h")
    case False
    then show ?thesis
      by (simp add: Cons headerReducer_excluded)
  next
    case True
    then show ?thesis
      by (cases "headerEntry lc h")
         (simp_all add: Cons headerReducer_included option.map_comp comp_def)
  qed
qed

lemma canonicalizeHeaders_eq:
  "canonicalizeHeaders lc hs names =
     map_option
       (\<lambda>es. \<lparr>res_signedHeaderNames =
                 map (\<lambda>h. lc (fst h))
                   (filter (headerIncluded lc
                      (case names of None \<Rightarrow> DEFAULT_HEADERS_TO_SIGN | Some ns \<Rightarrow> ns)) hs),
               res_canonicalizedHeaders = join [0x0A] (sort es)\<rparr>)
       (those (map (headerEntry lc)
          (filter (headerIncluded lc
             (case names of None \<Rightarrow> DEFAULT_HEADERS_TO_SIGN | Some ns \<Rightarrow> ns)) hs)))"
  by (cases "those (map (headerEntry lc)
          (filter (headerIncluded lc
             (case names of None \<Rightarrow> DEFAULT_HEADERS_TO_SIGN | Some ns \<Rightarrow> ns)) hs))")
     (simp_all add: canonicalizeHeaders_def reduce_headerReducer)

text \<open>
  Where no kept key needs escaping, the code's canonical query string is the one of
  the specification: the two differ only in the key.
\<close>

lemma canonicalizeSearchParams_plain_keys:
  assumes "\<forall>p\<in>set ps. \<forall>c\<in>set (fst p). unreserved c"
  shows "canonicalizeSearchParams lc (Some ps) = canonicalizeParams_spec lc (Some ps)"
proof -
  have eq: "map paramEntry (filter (paramKept lc) ps) =
        map (\<lambda>p. case normalize (fst p) of
                    None \<Rightarrow> None
                  | Some k \<Rightarrow> map_option (\<lambda>v. k @ js ''='' @ v) (normalize (snd p)))
          (filter (paramKept lc) ps)"
  proof (intro map_cong refl)
    fix p
    assume "p \<in> set (filter (paramKept lc) ps)"
    with assms have "\<forall>c\<in>set (fst p). unreserved c" by auto
    then have "normalize (fst p) = Some (fst p)" by (rule normalize_unreserved)
    then show "paramEntry p =
        (case normalize (fst p) of
           None \<Rightarrow> None
         | Some k \<Rightarrow> map_option (\<lambda>v. k @ js ''='' @ v) (normalize (snd p)))"
      by (simp add: paramEntry_def)
  qed
  show ?thesis
    unfolding canonicalizeSearchParams_eq eq by (simp add: canonicalizeParams_spec_def)
qed

text \<open>
  C3: the query canonicalizer is to emit \<open>normalize(key) = normalize(value)\<close> for each
  kept pair, sorted and joined with \<open>&\<close>. At the parameter list \<open>[(a b, 1)]\<close> the code
  writes the key as it is, \<open>a b=1\<close>, where the canonicalizer of the specification
  writes \<open>a%20b=1\<close>; the header canonicalizer does normalize the name.
\<close>

theorem canonicalizeSearchParams_raw_key:
  "canonicalizeSearchParams toLowerCaseASCII (Some [(js ''a b'', js ''1'')]) = Some (js ''a b=1'') \<and>
   canonicalizeParams_spec toLowerCaseASCII (Some [(js ''a b'', js ''1'')]) = Some (js ''a%20b=1'') \<and>
   canonicalizeSearchParams toLowerCaseASCII (Some [(js ''a b'', js ''1'')]) \<noteq>
     canonicalizeParams_spec toLowerCaseASCII (Some [(js ''a b'', js ''1'')]) \<and>
   map_option res_canonicalizedHeaders
     (canonicalizeHeaders toLowerCaseASCII [(js ''x-bce-a b'', js ''1'')] None) =
     Some (js ''x-bce-a%20b:1'')"
  by (simp add: eval_defs canonicalizeParams_spec_def paramKept_def)

lemma canonicalizeSearchParams_filter:
  "canonicalizeSearchParams lc (Some (filter (paramKept lc) ps)) =
   canonicalizeSearchParams lc (Some ps)"
  by (simp add: canonicalizeSearchParams_eq)

lemma createContext_params_cong:
  assumes "canonicalizeSearchParams lc (params r1) = canonicalizeSearchParams lc (params r2)"
      and "headers r1 = headers r2" and "method' r1 = method' r2" and "url r1 = url r2"
  shows "createContext hmacHex lc numToString credentials r1 options =
         createContext hmacHex lc numToString credentials r2 options"
  using assms by (simp add: createContext_def split: option.splits)

text \<open>
  C5: a pair whose lower-cased key is \<open>authorization\<close> emits nothing, so the canonical
  query string is the one of the list without these pairs, and the signature context
  and the token are those of the request without them.
\<close>

theorem authorization_param_excluded:
  "(lc key = js ''authorization'' \<longrightarrow> canonicalize lc (key, v) = Some []) \<and>
   canonicalizeSearchParams lc (Some ps) =
     canonicalizeSearchParams lc (Some (filter (\<lambda>p. lc (fst p) \<noteq> js ''authorization'') ps)) \<and>
   createContext hmacHex lc numToString credentials (request\<lparr>params := Some ps\<rparr>) options =
     createContext hmacHex lc numToString credentials
       (request\<lparr>params := Some (filter (\<lambda>p. lc (fst p) \<noteq> js ''authorization'') ps)\<rparr>) options \<and>
   authorize hmacHex lc numToString credentials (request\<lparr>params := Some ps\<rparr>) options =
     authorize hmacHex lc numToString credentials
       (request\<lparr>params := Some (filter (\<lambda>p. lc (fst p) \<noteq> js ''authorization'') ps)\<rparr>) options"
proof -
  have k: "paramKept lc = (\<lambda>p. lc (fst p) \<noteq> js ''authorization'')"
    by (rule ext) (simp add: paramKept_def)
  have q: "canonicalizeSearchParams lc (Some ps) =
     canonicalizeSearchParams lc (Some (filter (\<lambda>p. lc (fst p) \<noteq> js ''authorization'') ps))"
    using canonicalizeSearchParams_filter [of lc ps] by (simp add: k)
  have c: "createContext hmacHex lc numToString credentials (request\<lparr>params := Some ps\<rparr>) options =
     createContext hmacHex lc numToString credentials
       (request\<lparr>params := Some (filter (\<lambda>p. lc (fst p) \<noteq> js ''authorization'') ps)\<rparr>) options"
    by (rule createContext_params_cong) (simp_all add: q)
  have d: "lc key = js ''authorization'' \<longrightarrow> canonicalize lc (key, v) = Some []"
    by (simp add: canonicalize_def)
  from d q c show ?thesis by (simp add: authorize_def)
qed

theorem authorization_param_excluded_witness:
  "canonicalize toLowerCaseASCII (js ''AUTHORIZATION'', js ''secret'') = Some [] \<and>
   canonicalizeSearchParams toLowerCaseASCII
     (Some [(js ''Authorization'', js ''t''), (js ''a'', js ''1''), (js ''AUTHORIZATION'', js ''u'')]) =
   canonicalizeSearchParams toLowerCaseASCII (Some [(js ''a'', js ''1'')]) \<and>
   canonicalizeSearchParams toLowerCaseASCII (Some [(js ''a'', js ''1'')]) = Some (js ''a=1'')"
proof -
  have l: "toLowerCaseASCII (js ''AUTHORIZATION'') = js ''authorization''"
          "toLowerCaseASCII (js ''Authorization'') = js ''authorization''"
          "toLowerCaseASCII (js ''a'') \<noteq> js ''authorization''"
    by (simp_all add: toLowerCaseASCII_def js_def)
  have e: "canonicalizeSearchParams toLowerCaseASCII (Some [(js ''a'', js ''1'')]) = Some (js ''a=1'')"
    by (simp add: eval_defs)
  from authorization_param_excluded
         [of toLowerCaseASCII "js ''AUTHORIZATION''" "js ''secret''"
             "[(js ''Authorization'', js ''t''), (js ''a'', js ''1''), (js ''AUTHORIZATION'', js ''u'')]"
             symbolicHmac numberToStringInteger goldenCredential goldenRequest goldenOptions]
       l e
  show ?thesis by simp
qed

text \<open>
  C6: a header is in the signing set exactly when its trimmed value is not empty and its
  lower-cased name is listed in \<open>headerNamesToSign\<close> or starts with \<open>x-bce-\<close>; the
  signed names are the lower-cased names of the included headers in iteration order; the
  canonical block is the entries \<open>normalize(name):normalize(trimmed value)\<close> of the
  included headers, sorted and joined by newlines.
\<close>

theorem canonicalizeHeaders_selects:
  "canonicalizeHeaders lc hs names =
     map_option
       (\<lambda>es. \<lparr>res_signedHeaderNames =
                 map (\<lambda>h. lc (fst h))
                   (filter (headerIncluded lc
                      (case names of None \<Rightarrow> DEFAULT_HEADERS_TO_SIGN | Some ns \<Rightarrow> ns)) hs),
               res_canonicalizedHeaders = join [0x0A] (sort es)\<rparr>)
       (those (map (headerEntry lc)
          (filter (headerIncluded lc
             (case names of None \<Rightarrow> DEFAULT_HEADERS_TO_SIGN | Some ns \<Rightarrow> ns)) hs)))"
  by (rule canonicalizeHeaders_eq)

theorem canonicalizeHeaders_selects_witness:
  "canonicalizeHeaders toLowerCaseASCII
     [(js ''X-Bce-Date'', js '' 2015 ''), (js ''Content-Type'', js ''   ''),
      (js ''Host'', js ''bj.bcebos.com''), (js ''Accept'', js ''*/*'')] None =
   Some \<lparr>res_signedHeaderNames = [js ''x-bce-date'', js ''host''],
         res_canonicalizedHeaders = js ''host:bj.bcebos.com'' @ [0x0A] @ js ''x-bce-date:2015''\<rparr>"
  using canonicalizeHeaders_selects
          [of toLowerCaseASCII
              "[(js ''X-Bce-Date'', js '' 2015 ''), (js ''Content-Type'', js ''   ''),
                (js ''Host'', js ''bj.bcebos.com''), (js ''Accept'', js ''*/*'')]" None]
  by (simp add: eval_defs)

text \<open>
  C10: an explicit empty \<open>headerNamesToSign\<close> is used as it is, the default list is not
  substituted: a header is then signed exactly when its lower-cased name starts with
  \<open>x-bce-\<close> and its trimmed value is not empty, so a \<open>Host\<close> header is not signed, while
  it is when \<open>headerNamesToSign\<close> is absent.
\<close>

theorem empty_headerNamesToSign_no_default:
  "canonicalizeHeaders lc hs (Some []) =
     map_option
       (\<lambda>es. \<lparr>res_signedHeaderNames =
                 map (\<lambda>h. lc (fst h))
                   (filter (\<lambda>h. startsWith (lc (fst h)) (js ''x-bce-'') \<and> trim (snd h) \<noteq> []) hs),
               res_canonicalizedHeaders = join [0x0A] (sort es)\<rparr>)
       (those (map (headerEntry lc)
          (filter (\<lambda>h. startsWith (lc (fst h)) (js ''x-bce-'') \<and> trim (snd h) \<noteq> []) hs))) \<and>
   canonicalizeHeaders toLowerCaseASCII [(js ''Host'', js ''bj.bcebos.com'')] (Some []) =
     Some \<lparr>res_signedHeaderNames = [], res_canonicalizedHeaders = []\<rparr> \<and>
   canonicalizeHeaders toLowerCaseASCII [(js ''Host'', js ''bj.bcebos.com'')] None =
     Some \<lparr>res_signedHeaderNames = [js ''host''],
           res_canonicalizedHeaders = js ''host:bj.bcebos.com''\<rparr>"
proof -
  have i: "headerIncluded lc [] =
           (\<lambda>h. startsWith (lc (fst h)) (js ''x-bce-'') \<and> trim (snd h) \<noteq> [])"
    by (rule ext) (auto simp: headerIncluded_def)
  have g: "canonicalizeHeaders lc hs (Some []) =
     map_option
       (\<lambda>es. \<lparr>res_signedHeaderNames =
                 map (\<lambda>h. lc (fst h))
                   (filter (\<lambda>h. startsWith (lc (fst h)) (js ''x-bce-'') \<and> trim (snd h) \<noteq> []) hs),
               res_canonicalizedHeaders = join [0x0A] (sort es)\<rparr>)
       (those (map (headerEntry lc)
          (filter (\<lambda>h. startsWith (lc (fst h)) (js ''x-bce-'') \<and> trim (snd h) \<noteq> []) hs)))"
    using canonicalizeHeaders_eq [of lc hs "Some []"] by (simp add: i)
  have e1: "canonicalizeHeaders toLowerCaseASCII [(js ''Host'', js ''bj.bcebos.com'')] (Some []) =
     Some \<lparr>res_signedHeaderNames = [], res_canonicalizedHeaders = []\<rparr>"
    by (simp add: eval_defs)
  have e2: "canonicalizeHeaders toLowerCaseASCII [(js ''Host'', js ''bj.bcebos.com'')] None =
     Some \<lparr>res_signedHeaderNames = [js ''host''],
           res_canonicalizedHeaders = js ''host:bj.bcebos.com''\<rparr>"
    by (simp add: eval_defs)
  from g e1 e2 show ?thesis by simp
qed

theorem empty_headerNamesToSign_no_default_witness:
  "canonicalizeHeaders toLowerCaseASCII
     [(js ''Host'', js ''bj.bcebos.com''), (js ''x-bce-date'', js ''d''), (js ''X-Bce-Empty'', js '' '')]
     (Some []) =
   Some \<lparr>res_signedHeaderNames = [js ''x-bce-date''],
         res_canonicalizedHeaders = js ''x-bce-date:d''\<rparr>"
  using empty_headerNamesToSign_no_default
          [of toLowerCaseASCII
              "[(js ''Host'', js ''bj.bcebos.com''), (js ''x-bce-date'', js ''d''),
                (js ''X-Bce-Empty'', js '' '')]"]
  by (simp add: eval_defs)

subsection \<open>The signature context and the token\<close>

lemma createContext_Inr_iff:
  "createContext hmacHex lc numToString credentials request options = Inr context \<longleftrightarrow>
     (\<exists>hs query.
        canonicalizeHeaders lc (headers request) (headerNamesToSign options) = Some hs \<and>
        canonicalizeSearchParams lc (params request) = Some query \<and>
        canonicalRequest context =
          join [0x0A] [method' request, url request, query, res_canonicalizedHeaders hs] \<and>
        signedHeaderNames context = res_signedHeaderNames hs \<and>
        authStringPrefix context =
          js ''bce-auth-v1/'' @ ak credentials @ js ''/'' @ timestamp options @ js ''/'' @
          numToString (orElse (expireInSeconds options) (Finite 1800)) \<and>
        hmacHex (js ''sha256'') (sk credentials) (authStringPrefix context) =
          Inr (signingKey context) \<and>
        hmacHex (js ''sha256'') (signingKey context) (canonicalRequest context) =
          Inr (signature context))"
  (is "?L \<longleftrightarrow> ?R")
proof
  assume ?L
  then show ?R
    by (auto simp: createContext_def hash_def Let_def split: option.splits sum.splits)
next
  assume ?R
  then obtain hs query where
    h: "canonicalizeHeaders lc (headers request) (headerNamesToSign options) = Some hs" and
    q: "canonicalizeSearchParams lc (params request) = Some query" and
    c: "canonicalRequest context =
          join [0x0A] [method' request, url request, query, res_canonicalizedHeaders hs]" and
    n: "signedHeaderNames context = res_signedHeaderNames hs" and
    p: "authStringPrefix context =
          js ''bce-auth-v1/'' @ ak credentials @ js ''/'' @ timestamp options @ js ''/'' @
          numToString (orElse (expireInSeconds options) (Finite 1800))" and
    k: "hmacHex (js ''sha256'') (sk credentials) (authStringPrefix context) =
          Inr (signingKey context)" and
    s: "hmacHex (js ''sha256'') (signingKey context) (canonicalRequest context) =
          Inr (signature context)"
    by blast
  have "createContext hmacHex lc numToString credentials request options =
        Inr \<lparr>canonicalRequest = canonicalRequest context,
             signedHeaderNames = signedHeaderNames context,
             authStringPrefix = authStringPrefix context,
             signingKey = signingKey context,
             signature = signature context\<rparr>"
    using k s unfolding c n p
    by (simp add: createContext_def hash_def Let_def h q)
  then show ?L by simp
qed

lemma authorize_Inr_iff:
  "authorize hmacHex lc numToString credentials request options = Inr token \<longleftrightarrow>
     (\<exists>context.
        createContext hmacHex lc numToString credentials request options = Inr context \<and>
        token = authStringPrefix context @ js ''/'' @ join (js '';'') (signedHeaderNames context) @
                js ''/'' @ signature context)"
  by (auto simp: authorize_def split: sum.splits)

text \<open>The golden request under the symbolic primitive, for any secret key and expiry.\<close>

lemma golden_headers:
  "canonicalizeHeaders toLowerCaseASCII (headers goldenRequest) (headerNamesToSign goldenOptions) =
     Some \<lparr>res_signedHeaderNames = [js ''host''],
           res_canonicalizedHeaders = js ''host:bj.bcebos.com''\<rparr>"
  by (simp add: goldenRequest_def goldenOptions_def eval_defs)

lemma golden_context:
  "createContext symbolicHmac toLowerCaseASCII numberToStringInteger (goldenCredential\<lparr>sk := k\<rparr>) goldenRequest
     (goldenOptions\<lparr>expireInSeconds := e\<rparr>) =
   Inr \<lparr>canonicalRequest =
          js ''GET'' @ [0x0A] @ js ''/v1/object'' @ [0x0A, 0x0A] @ js ''host:bj.bcebos.com'',
        signedHeaderNames = [js ''host''],
        authStringPrefix = js ''bce-auth-v1/AK/2015-04-27T08:23:49Z/'' @ numberToStringInteger (orElse e (Finite 1800)),
        signingKey =
          js ''hmac('' @ k @ js '',bce-auth-v1/AK/2015-04-27T08:23:49Z/'' @
          numberToStringInteger (orElse e (Finite 1800)) @ js '')'',
        signature =
          js ''hmac(hmac('' @ k @ js '',bce-auth-v1/AK/2015-04-27T08:23:49Z/'' @
          numberToStringInteger (orElse e (Finite 1800)) @ js ''),GET'' @ [0x0A] @ js ''/v1/object'' @ [0x0A, 0x0A] @
          js ''host:bj.bcebos.com)''\<rparr>"
proof -
  have h: "canonicalizeHeaders toLowerCaseASCII (headers goldenRequest)
             (headerNamesToSign (goldenOptions\<lparr>expireInSeconds := e\<rparr>)) =
           Some \<lparr>res_signedHeaderNames = [js ''host''],
                 res_canonicalizedHeaders = js ''host:bj.bcebos.com''\<rparr>"
    using golden_headers by (simp add: goldenOptions_def)
  have q: "canonicalizeSearchParams toLowerCaseASCII (params goldenRequest) = Some []"
    by (simp add: goldenRequest_def canonicalizeSearchParams_def)
  show ?thesis
    unfolding createContext_def h q
    by (simp add: goldenRequest_def goldenOptions_def goldenCredential_def hash_def
                  symbolicHmac_def js_def)
qed

lemma numberToString_1800: "numberToStringInteger (Finite 1800) = js ''1800''"
  by (simp add: numberToStringInteger_def isSafeInteger_def decimal.simps digitChar_def js_def)

lemma numberToString_minus5: "numberToStringInteger (Finite (- 5)) = js ''-5''"
  by (simp add: numberToStringInteger_def isSafeInteger_def decimal.simps digitChar_def js_def)

lemma numberToString_60: "numberToStringInteger (Finite 60) = js ''60''"
  by (simp add: numberToStringInteger_def isSafeInteger_def decimal.simps digitChar_def js_def)

text \<open>
  C1: \<open>authorize\<close> returns a token exactly when \<open>createContext\<close> returns a context, and the
  token is \<open>bce-auth-v1/{accessKey}/{timestamp}/{expire}\<close>, \<open>/\<close>, the signed header names
  joined by \<open>;\<close>, \<open>/\<close> and the signature.
\<close>

theorem authorize_token_shape:
  "authorize hmacHex lc numToString credentials request options = Inr token \<longleftrightarrow>
     (\<exists>context.
        createContext hmacHex lc numToString credentials request options = Inr context \<and>
        authStringPrefix context =
          js ''bce-auth-v1/'' @ ak credentials @ js ''/'' @ timestamp options @ js ''/'' @
          numToString (orElse (expireInSeconds options) (Finite 1800)) \<and>
        token =
          js ''bce-auth-v1/'' @ ak credentials @ js ''/'' @ timestamp options @ js ''/'' @
          numToString (orElse (expireInSeconds options) (Finite 1800)) @ js ''/'' @
          join (js '';'') (signedHeaderNames context) @ js ''/'' @ signature context)"
  (is "?L \<longleftrightarrow> ?R")
proof
  assume ?L
  then obtain cx where
    c: "createContext hmacHex lc numToString credentials request options = Inr cx" and
    t: "token = authStringPrefix cx @ js ''/'' @ join (js '';'') (signedHeaderNames cx) @
                js ''/'' @ signature cx"
    unfolding authorize_Inr_iff by blast
  from c have "authStringPrefix cx =
          js ''bce-auth-v1/'' @ ak credentials @ js ''/'' @ timestamp options @ js ''/'' @
          numToString (orElse (expireInSeconds options) (Finite 1800))"
    unfolding createContext_Inr_iff by blast
  with c t show ?R by auto
next
  assume ?R
  then show ?L unfolding authorize_Inr_iff by auto
qed

theorem authorize_token_shape_witness:
  "authorize symbolicHmac toLowerCaseASCII numberToStringInteger goldenCredential goldenRequest goldenOptions =
   Inr (js ''bce-auth-v1/AK/2015-04-27T08:23:49Z/1800/host/'' @
        js ''hmac(hmac(SK,bce-auth-v1/AK/2015-04-27T08:23:49Z/1800),GET'' @ [0x0A] @
        js ''/v1/object'' @ [0x0A, 0x0A] @ js ''host:bj.bcebos.com)'')"
proof -
  have c: "goldenCredential\<lparr>sk := js ''SK''\<rparr> = goldenCredential"
          "goldenOptions\<lparr>expireInSeconds := None\<rparr> = goldenOptions"
    by (simp_all add: goldenCredential_def goldenOptions_def)
  have g: "ak goldenCredential = js ''AK''" "timestamp goldenOptions = js ''2015-04-27T08:23:49Z''"
          "expireInSeconds goldenOptions = None"
    by (simp_all add: goldenCredential_def goldenOptions_def)
  note ctx = golden_context [of "js ''SK''" None, unfolded c]
  define cx where
    "cx = projr (createContext symbolicHmac toLowerCaseASCII numberToStringInteger goldenCredential goldenRequest
                   goldenOptions)"
  have r: "createContext symbolicHmac toLowerCaseASCII numberToStringInteger goldenCredential goldenRequest
             goldenOptions = Inr cx"
    by (simp add: cx_def ctx)
  have f: "authStringPrefix cx = js ''bce-auth-v1/AK/2015-04-27T08:23:49Z/1800''"
          "signedHeaderNames cx = [js ''host'']"
          "signature cx =
             js ''hmac(hmac(SK,bce-auth-v1/AK/2015-04-27T08:23:49Z/1800),GET'' @ [0x0A] @
             js ''/v1/object'' @ [0x0A, 0x0A] @ js ''host:bj.bcebos.com)''"
    by (simp_all add: cx_def ctx orElse_def falsy_def numberToString_1800 js_def)
  show ?thesis
    unfolding authorize_token_shape
    by (rule exI [of _ cx]) (simp add: r f g orElse_def falsy_def numberToString_1800 js_def)
qed

text \<open>
  C2: \<open>createContext\<close> returns a context exactly when both canonicalizations and both
  HMAC calls return; its canonical request is the newline-join of method, url, canonical
  query and canonical headers; its signing key is the hex HMAC-SHA256 of the
  auth-string prefix under the secret key; and its signature is the hex HMAC-SHA256 of
  the canonical request under the signing key.
\<close>

theorem createContext_hmac_chain:
  "createContext hmacHex lc numToString credentials request options = Inr context \<longleftrightarrow>
     (\<exists>hs query.
        canonicalizeHeaders lc (headers request) (headerNamesToSign options) = Some hs \<and>
        canonicalizeSearchParams lc (params request) = Some query \<and>
        canonicalRequest context =
          join [0x0A] [method' request, url request, query, res_canonicalizedHeaders hs] \<and>
        signedHeaderNames context = res_signedHeaderNames hs \<and>
        authStringPrefix context =
          js ''bce-auth-v1/'' @ ak credentials @ js ''/'' @ timestamp options @ js ''/'' @
          numToString (orElse (expireInSeconds options) (Finite 1800)) \<and>
        hmacHex (js ''sha256'') (sk credentials) (authStringPrefix context) =
          Inr (signingKey context) \<and>
        hmacHex (js ''sha256'') (signingKey context) (canonicalRequest context) =
          Inr (signature context))"
  by (rule createContext_Inr_iff)

theorem createContext_hmac_chain_witness:
  "map_sum id signingKey
     (createContext symbolicHmac toLowerCaseASCII numberToStringInteger goldenCredential goldenRequest goldenOptions) =
     Inr (js ''hmac(SK,bce-auth-v1/AK/2015-04-27T08:23:49Z/1800)'') \<and>
   map_sum id signature
     (createContext symbolicHmac toLowerCaseASCII numberToStringInteger goldenCredential goldenRequest goldenOptions) =
     Inr (js ''hmac(hmac(SK,bce-auth-v1/AK/2015-04-27T08:23:49Z/1800),GET'' @ [0x0A] @
          js ''/v1/object'' @ [0x0A, 0x0A] @ js ''host:bj.bcebos.com)'')"
proof -
  have c: "goldenCredential\<lparr>sk := js ''SK''\<rparr> = goldenCredential"
          "goldenOptions\<lparr>expireInSeconds := None\<rparr> = goldenOptions"
    by (simp_all add: goldenCredential_def goldenOptions_def)
  note ctx = golden_context [of "js ''SK''" None, unfolded c]
  define cx where
    "cx = projr (createContext symbolicHmac toLowerCaseASCII numberToStringInteger goldenCredential goldenRequest
                   goldenOptions)"
  have r: "createContext symbolicHmac toLowerCaseASCII numberToStringInteger goldenCredential goldenRequest
             goldenOptions = Inr cx"
    by (simp add: cx_def ctx)
  from r [unfolded createContext_hmac_chain] obtain hs query where
    h: "canonicalizeHeaders toLowerCaseASCII (headers goldenRequest)
          (headerNamesToSign goldenOptions) = Some hs" and
    q: "canonicalizeSearchParams toLowerCaseASCII (params goldenRequest) = Some query" and
    cr: "canonicalRequest cx =
           join [0x0A] [method' goldenRequest, url goldenRequest, query,
                        res_canonicalizedHeaders hs]" and
    p: "authStringPrefix cx =
          js ''bce-auth-v1/'' @ ak goldenCredential @ js ''/'' @ timestamp goldenOptions @
          js ''/'' @ numberToStringInteger (orElse (expireInSeconds goldenOptions) (Finite 1800))" and
    k: "symbolicHmac (js ''sha256'') (sk goldenCredential) (authStringPrefix cx) =
          Inr (signingKey cx)" and
    s: "symbolicHmac (js ''sha256'') (signingKey cx) (canonicalRequest cx) = Inr (signature cx)"
    by blast
  have hs: "hs = \<lparr>res_signedHeaderNames = [js ''host''],
                   res_canonicalizedHeaders = js ''host:bj.bcebos.com''\<rparr>"
    using h golden_headers by simp
  have qe: "query = []"
    using q by (simp add: goldenRequest_def canonicalizeSearchParams_def)
  have p': "authStringPrefix cx = js ''bce-auth-v1/AK/2015-04-27T08:23:49Z/1800''"
    unfolding p
    by (simp add: goldenCredential_def goldenOptions_def orElse_def falsy_def numberToString_1800 js_def)
  have cr': "canonicalRequest cx =
               js ''GET'' @ [0x0A] @ js ''/v1/object'' @ [0x0A, 0x0A] @ js ''host:bj.bcebos.com''"
    unfolding cr hs qe by (simp add: goldenRequest_def js_def)
  have k': "signingKey cx = js ''hmac(SK,bce-auth-v1/AK/2015-04-27T08:23:49Z/1800)''"
    using k unfolding p' by (simp add: symbolicHmac_def goldenCredential_def js_def)
  have s': "signature cx =
              js ''hmac(hmac(SK,bce-auth-v1/AK/2015-04-27T08:23:49Z/1800),GET'' @ [0x0A] @
              js ''/v1/object'' @ [0x0A, 0x0A] @ js ''host:bj.bcebos.com)''"
    using s unfolding k' cr' by (simp add: symbolicHmac_def js_def)
  show ?thesis by (simp add: r k' s')
qed

lemma falsy_iff: "falsy n \<longleftrightarrow> \<not> (isPositive n \<or> isNegative n)"
  by (cases n) (auto simp: falsy_def isPositive_def isNegative_def)

lemma createContext_expire_cong:
  assumes "orElse (expireInSeconds o1) (Finite 1800) = orElse (expireInSeconds o2) (Finite 1800)"
      and "timestamp o1 = timestamp o2" and "headerNamesToSign o1 = headerNamesToSign o2"
  shows "createContext hmacHex lc numToString credentials request o1 =
         createContext hmacHex lc numToString credentials request o2"
  using assms by (simp add: createContext_def split: option.splits)

text \<open>
  C4 (amended): with \<open>expireInSeconds\<close> omitted, \<open>0\<close> (or \<open>-0\<close>) or NaN, the signature
  context and the token are those of an explicit \<open>expireInSeconds\<close> of 1800; the expire
  field of the prefix is \<open>expireInSeconds\<close> when that is positive and also when it is
  negative (a negative value is printed as it is), and 1800 otherwise.
\<close>

theorem expire_default:
  "((expireInSeconds options = None \<or> expireInSeconds options = Some (Finite 0) \<or>
     expireInSeconds options = Some NegZero \<or> expireInSeconds options = Some NaN) \<longrightarrow>
      createContext hmacHex lc numToString credentials request options =
        createContext hmacHex lc numToString credentials request
          (options\<lparr>expireInSeconds := Some (Finite 1800)\<rparr>) \<and>
      authorize hmacHex lc numToString credentials request options =
        authorize hmacHex lc numToString credentials request
          (options\<lparr>expireInSeconds := Some (Finite 1800)\<rparr>)) \<and>
   (createContext hmacHex lc numToString credentials request options = Inr context \<longrightarrow>
      authStringPrefix context =
        js ''bce-auth-v1/'' @ ak credentials @ js ''/'' @ timestamp options @ js ''/'' @
        numToString (case expireInSeconds options of
                       None \<Rightarrow> Finite 1800
                     | Some n \<Rightarrow> if isPositive n \<or> isNegative n then n else Finite 1800))"
proof -
  have a: "expireInSeconds options = None \<or> expireInSeconds options = Some (Finite 0) \<or>
     expireInSeconds options = Some NegZero \<or> expireInSeconds options = Some NaN \<Longrightarrow>
      createContext hmacHex lc numToString credentials request options =
        createContext hmacHex lc numToString credentials request
          (options\<lparr>expireInSeconds := Some (Finite 1800)\<rparr>)"
    by (rule createContext_expire_cong) (auto simp: orElse_def falsy_def)
  have o: "orElse (expireInSeconds options) (Finite 1800) =
           (case expireInSeconds options of
              None \<Rightarrow> Finite 1800
            | Some n \<Rightarrow> if isPositive n \<or> isNegative n then n else Finite 1800)"
    by (simp add: orElse_def falsy_iff split: option.splits)
  have b: "createContext hmacHex lc numToString credentials request options = Inr context \<Longrightarrow>
      authStringPrefix context =
        js ''bce-auth-v1/'' @ ak credentials @ js ''/'' @ timestamp options @ js ''/'' @
        numToString (case expireInSeconds options of
                       None \<Rightarrow> Finite 1800
                     | Some n \<Rightarrow> if isPositive n \<or> isNegative n then n else Finite 1800)"
    unfolding createContext_Inr_iff o [symmetric] by blast
  from a b show ?thesis by (auto simp: authorize_def)
qed

theorem expire_default_witness:
  "authorize symbolicHmac toLowerCaseASCII numberToStringInteger goldenCredential goldenRequest goldenOptions =
     authorize symbolicHmac toLowerCaseASCII numberToStringInteger goldenCredential goldenRequest
       (goldenOptions\<lparr>expireInSeconds := Some (Finite 1800)\<rparr>) \<and>
   authorize symbolicHmac toLowerCaseASCII numberToStringInteger goldenCredential goldenRequest
       (goldenOptions\<lparr>expireInSeconds := Some (Finite 0)\<rparr>) =
     authorize symbolicHmac toLowerCaseASCII numberToStringInteger goldenCredential goldenRequest
       (goldenOptions\<lparr>expireInSeconds := Some (Finite 1800)\<rparr>) \<and>
   authorize symbolicHmac toLowerCaseASCII numberToStringInteger goldenCredential goldenRequest
       (goldenOptions\<lparr>expireInSeconds := Some NaN\<rparr>) =
     authorize symbolicHmac toLowerCaseASCII numberToStringInteger goldenCredential goldenRequest
       (goldenOptions\<lparr>expireInSeconds := Some (Finite 1800)\<rparr>) \<and>
   map_sum id authStringPrefix
     (createContext symbolicHmac toLowerCaseASCII numberToStringInteger goldenCredential goldenRequest
        (goldenOptions\<lparr>expireInSeconds := Some (Finite 60)\<rparr>)) =
     Inr (js ''bce-auth-v1/AK/2015-04-27T08:23:49Z/60'')"
proof -
  have c: "goldenCredential\<lparr>sk := js ''SK''\<rparr> = goldenCredential"
    by (simp add: goldenCredential_def)
  define cx where
    "cx = projr (createContext symbolicHmac toLowerCaseASCII numberToStringInteger goldenCredential goldenRequest
                   (goldenOptions\<lparr>expireInSeconds := Some (Finite 60)\<rparr>))"
  have r: "createContext symbolicHmac toLowerCaseASCII numberToStringInteger goldenCredential goldenRequest
             (goldenOptions\<lparr>expireInSeconds := Some (Finite 60)\<rparr>) = Inr cx"
    by (simp add: cx_def golden_context [of "js ''SK''" "Some (Finite 60)", unfolded c])
  have w1: "authorize symbolicHmac toLowerCaseASCII numberToStringInteger goldenCredential goldenRequest goldenOptions =
     authorize symbolicHmac toLowerCaseASCII numberToStringInteger goldenCredential goldenRequest
       (goldenOptions\<lparr>expireInSeconds := Some (Finite 1800)\<rparr>)"
    using expire_default [of goldenOptions symbolicHmac toLowerCaseASCII numberToStringInteger
                             goldenCredential goldenRequest cx]
    by (simp add: goldenOptions_def)
  have w2: "authorize symbolicHmac toLowerCaseASCII numberToStringInteger goldenCredential goldenRequest
       (goldenOptions\<lparr>expireInSeconds := Some (Finite 0)\<rparr>) =
     authorize symbolicHmac toLowerCaseASCII numberToStringInteger goldenCredential goldenRequest
       (goldenOptions\<lparr>expireInSeconds := Some (Finite 1800)\<rparr>)"
    using expire_default [of "goldenOptions\<lparr>expireInSeconds := Some (Finite 0)\<rparr>" symbolicHmac
                             toLowerCaseASCII numberToStringInteger goldenCredential goldenRequest cx]
    by simp
  have w3: "authorize symbolicHmac toLowerCaseASCII numberToStringInteger goldenCredential goldenRequest
       (goldenOptions\<lparr>expireInSeconds := Some NaN\<rparr>) =
     authorize symbolicHmac toLowerCaseASCII numberToStringInteger goldenCredential goldenRequest
       (goldenOptions\<lparr>expireInSeconds := Some (Finite 1800)\<rparr>)"
    using expire_default [of "goldenOptions\<lparr>expireInSeconds := Some NaN\<rparr>" symbolicHmac
                             toLowerCaseASCII numberToStringInteger goldenCredential goldenRequest cx]
    by simp
  have w4: "authStringPrefix cx = js ''bce-auth-v1/AK/2015-04-27T08:23:49Z/60''"
    using expire_default [of "goldenOptions\<lparr>expireInSeconds := Some (Finite 60)\<rparr>" symbolicHmac
                             toLowerCaseASCII numberToStringInteger goldenCredential goldenRequest cx] r
    by (simp add: goldenOptions_def goldenCredential_def isPositive_def numberToString_60 js_def)
  from w1 w2 w3 w4 r show ?thesis by simp
qed

text \<open>
  C4 as stated fails: a negative \<open>expireInSeconds\<close> is truthy, so \<open>-5\<close> is printed into the
  prefix, and the token differs from the one of an explicit 1800.
\<close>

theorem negative_expire_counterexample:
  "map_sum id authStringPrefix
     (createContext symbolicHmac toLowerCaseASCII numberToStringInteger goldenCredential goldenRequest
        (goldenOptions\<lparr>expireInSeconds := Some (Finite (- 5))\<rparr>)) =
     Inr (js ''bce-auth-v1/AK/2015-04-27T08:23:49Z/-5'') \<and>
   map_sum id authStringPrefix
     (createContext symbolicHmac toLowerCaseASCII numberToStringInteger goldenCredential goldenRequest
        (goldenOptions\<lparr>expireInSeconds := Some (Finite 1800)\<rparr>)) =
     Inr (js ''bce-auth-v1/AK/2015-04-27T08:23:49Z/1800'') \<and>
   authorize symbolicHmac toLowerCaseASCII numberToStringInteger goldenCredential goldenRequest
     (goldenOptions\<lparr>expireInSeconds := Some (Finite (- 5))\<rparr>) \<noteq>
   authorize symbolicHmac toLowerCaseASCII numberToStringInteger goldenCredential goldenRequest
     (goldenOptions\<lparr>expireInSeconds := Some (Finite 1800)\<rparr>)"
proof -
  have c: "goldenCredential\<lparr>sk := js ''SK''\<rparr> = goldenCredential"
    by (simp add: goldenCredential_def)
  note m = golden_context [of "js ''SK''" "Some (Finite (- 5))", unfolded c]
  note d = golden_context [of "js ''SK''" "Some (Finite 1800)", unfolded c]
  have p1: "map_sum id authStringPrefix
     (createContext symbolicHmac toLowerCaseASCII numberToStringInteger goldenCredential goldenRequest
        (goldenOptions\<lparr>expireInSeconds := Some (Finite (- 5))\<rparr>)) =
     Inr (js ''bce-auth-v1/AK/2015-04-27T08:23:49Z/-5'')"
    by (simp add: m orElse_def falsy_def numberToString_minus5 js_def)
  have p2: "map_sum id authStringPrefix
     (createContext symbolicHmac toLowerCaseASCII numberToStringInteger goldenCredential goldenRequest
        (goldenOptions\<lparr>expireInSeconds := Some (Finite 1800)\<rparr>)) =
     Inr (js ''bce-auth-v1/AK/2015-04-27T08:23:49Z/1800'')"
    by (simp add: d orElse_def falsy_def numberToString_1800 js_def)
  have ne: "authorize symbolicHmac toLowerCaseASCII numberToStringInteger goldenCredential goldenRequest
     (goldenOptions\<lparr>expireInSeconds := Some (Finite (- 5))\<rparr>) \<noteq>
   authorize symbolicHmac toLowerCaseASCII numberToStringInteger goldenCredential goldenRequest
     (goldenOptions\<lparr>expireInSeconds := Some (Finite 1800)\<rparr>)"
    by (simp add: authorize_def m d orElse_def falsy_def numberToString_minus5 numberToString_1800 js_def)
  from p1 p2 ne show ?thesis by simp
qed

text \<open>
  C9 (amended): when the HMAC primitive throws on the secret key, \<open>authorize\<close> returns no
  token; if the canonicalization has not thrown before, the failure is the primitive's
  error, unchanged. \<open>authorize\<close> fails with an error of the primitive exactly when the
  canonicalization succeeds and the first or the second HMAC call throws it.
\<close>

theorem hmac_failure_propagates:
  "(hmacHex (js ''sha256'') (sk credentials)
      (js ''bce-auth-v1/'' @ ak credentials @ js ''/'' @ timestamp options @ js ''/'' @
       numToString (orElse (expireInSeconds options) (Finite 1800))) = Inl e \<longrightarrow>
      (\<exists>e'. authorize hmacHex lc numToString credentials request options = Inl e') \<and>
      (canonicalizeHeaders lc (headers request) (headerNamesToSign options) \<noteq> None \<and>
       canonicalizeSearchParams lc (params request) \<noteq> None \<longrightarrow>
         authorize hmacHex lc numToString credentials request options = Inl (HmacError e))) \<and>
   (authorize hmacHex lc numToString credentials request options = Inl (HmacError x) \<longleftrightarrow>
      (\<exists>hs query.
         canonicalizeHeaders lc (headers request) (headerNamesToSign options) = Some hs \<and>
         canonicalizeSearchParams lc (params request) = Some query \<and>
         (hmacHex (js ''sha256'') (sk credentials)
            (js ''bce-auth-v1/'' @ ak credentials @ js ''/'' @ timestamp options @ js ''/'' @
             numToString (orElse (expireInSeconds options) (Finite 1800))) = Inl x \<or>
          (\<exists>k. hmacHex (js ''sha256'') (sk credentials)
                 (js ''bce-auth-v1/'' @ ak credentials @ js ''/'' @ timestamp options @ js ''/'' @
                  numToString (orElse (expireInSeconds options) (Finite 1800))) = Inr k \<and>
               hmacHex (js ''sha256'') k
                 (join [0x0A] [method' request, url request, query,
                               res_canonicalizedHeaders hs]) = Inl x))))"
  by (auto simp: authorize_def createContext_def hash_def Let_def
           split: option.splits sum.splits)

theorem hmac_failure_propagates_witness:
  "authorize strictHmac toLowerCaseASCII numberToStringInteger (goldenCredential\<lparr>sk := []\<rparr>) goldenRequest
     goldenOptions = Inl (HmacError ''empty key'')"
proof -
  have k: "strictHmac (js ''sha256'') (sk (goldenCredential\<lparr>sk := []\<rparr>))
      (js ''bce-auth-v1/'' @ ak (goldenCredential\<lparr>sk := []\<rparr>) @ js ''/'' @
       timestamp goldenOptions @ js ''/'' @
       numberToStringInteger (orElse (expireInSeconds goldenOptions) (Finite 1800))) = Inl ''empty key''"
    by (simp add: strictHmac_def)
  have q: "canonicalizeSearchParams toLowerCaseASCII (params goldenRequest) \<noteq> None"
    by (simp add: goldenRequest_def canonicalizeSearchParams_def)
  from hmac_failure_propagates
         [of strictHmac "goldenCredential\<lparr>sk := []\<rparr>" goldenOptions numberToStringInteger
             "''empty key''"
             toLowerCaseASCII goldenRequest "''empty key''"]
       k q golden_headers
  show ?thesis by simp
qed

text \<open>
  C9 as stated fails: \<open>authorize\<close> has no check of its own on the secret key, so with a
  primitive that accepts the empty key (as HMAC itself does) it returns a token.
\<close>

theorem empty_secret_key_counterexample:
  "authorize symbolicHmac toLowerCaseASCII numberToStringInteger (goldenCredential\<lparr>sk := []\<rparr>) goldenRequest
     goldenOptions =
   Inr (js ''bce-auth-v1/AK/2015-04-27T08:23:49Z/1800/host/'' @
        js ''hmac(hmac(,bce-auth-v1/AK/2015-04-27T08:23:49Z/1800),GET'' @ [0x0A] @
        js ''/v1/object'' @ [0x0A, 0x0A] @ js ''host:bj.bcebos.com)'')"
proof -
  have c: "goldenOptions\<lparr>expireInSeconds := None\<rparr> = goldenOptions"
    by (simp add: goldenOptions_def)
  note ctx = golden_context [of "[]" None, unfolded c]
  show ?thesis
    by (simp add: authorize_def ctx orElse_def falsy_def numberToString_1800 js_def)
qed

subsection \<open>Reordering the request\<close>

lemma those_eq_None: "those xs = None \<longleftrightarrow> None \<in> set xs"
  by (induction xs) (auto split: option.splits)

lemma those_eq_Some: "those xs = Some ys \<longleftrightarrow> xs = map Some ys"
  by (induction xs arbitrary: ys) (auto split: option.splits)

lemma mset_map_Some:
  assumes "mset (map Some zs) = mset (map Some ws)" shows "mset zs = mset ws"
proof -
  have "image_mset the (mset (map Some zs)) = image_mset the (mset (map Some ws))"
    using assms by simp
  then show ?thesis by (simp add: multiset.map_comp comp_def)
qed

lemma sort_mset: "mset (zs :: jsstring list) = mset ws \<Longrightarrow> sort zs = sort ws"
  by (metis sorted_list_of_multiset_mset)

lemma those_sort:
  assumes "mset xs = mset ys"
  shows "map_option sort (those xs) = map_option sort (those (ys :: jsstring option list))"
proof -
  have sets: "set xs = set ys" using assms by (rule mset_eq_setD)
  show ?thesis
  proof (cases "those xs")
    case None
    then have "None \<in> set ys" using sets by (simp add: those_eq_None)
    then have "those ys = None" by (simp add: those_eq_None)
    with None show ?thesis by simp
  next
    case (Some zs)
    then have xs: "xs = map Some zs" by (simp add: those_eq_Some)
    then have "None \<notin> set xs" by auto
    then have "those ys \<noteq> None" using sets by (simp add: those_eq_None)
    then obtain ws where ws: "those ys = Some ws" by (cases "those ys") simp_all
    then have ys: "ys = map Some ws" by (simp add: those_eq_Some)
    have "mset (map Some zs) = mset (map Some ws)" using assms xs ys by simp
    then have "mset zs = mset ws" by (rule mset_map_Some)
    then have "sort zs = sort ws" by (rule sort_mset)
    with Some ws show ?thesis by simp
  qed
qed

lemma those_sorted_join:
  assumes "mset xs = mset ys"
  shows "map_option (\<lambda>es. join sep (sort es)) (those xs) =
         map_option (\<lambda>es. join sep (sort es)) (those (ys :: jsstring option list))"
proof -
  have "map_option (join sep) (map_option sort (those xs)) =
        map_option (join sep) (map_option sort (those ys))"
    using those_sort [OF assms] by simp
  then show ?thesis by (simp add: option.map_comp comp_def)
qed

lemma canonicalizeSearchParams_mset:
  assumes "mset ps1 = mset ps2"
  shows "canonicalizeSearchParams lc (Some ps1) = canonicalizeSearchParams lc (Some ps2)"
proof -
  have "mset (map paramEntry (filter (paramKept lc) ps1)) =
        mset (map paramEntry (filter (paramKept lc) ps2))"
    using assms by simp
  then show ?thesis
    unfolding canonicalizeSearchParams_eq by (rule those_sorted_join)
qed

lemma canonicalizeHeaders_mset:
  assumes "mset hs1 = mset hs2"
  shows "map_option res_canonicalizedHeaders (canonicalizeHeaders lc hs1 names) =
         map_option res_canonicalizedHeaders (canonicalizeHeaders lc hs2 names)"
    and "map_option (\<lambda>r. mset (res_signedHeaderNames r)) (canonicalizeHeaders lc hs1 names) =
         map_option (\<lambda>r. mset (res_signedHeaderNames r)) (canonicalizeHeaders lc hs2 names)"
proof -
  let ?inc = "headerIncluded lc (case names of None \<Rightarrow> DEFAULT_HEADERS_TO_SIGN | Some ns \<Rightarrow> ns)"
  have f: "mset (filter ?inc hs1) = mset (filter ?inc hs2)"
    using assms by simp
  then have e: "mset (map (headerEntry lc) (filter ?inc hs1)) =
                mset (map (headerEntry lc) (filter ?inc hs2))"
    by simp
  from f have n: "mset (map (\<lambda>h. lc (fst h)) (filter ?inc hs1)) =
                  mset (map (\<lambda>h. lc (fst h)) (filter ?inc hs2))"
    by simp
  show "map_option res_canonicalizedHeaders (canonicalizeHeaders lc hs1 names) =
        map_option res_canonicalizedHeaders (canonicalizeHeaders lc hs2 names)"
    using those_sorted_join [OF e, of "[0x0A]"]
    by (simp add: canonicalizeHeaders_eq option.map_comp comp_def)
  have "those (map (headerEntry lc) (filter ?inc hs1)) = None \<longleftrightarrow>
        those (map (headerEntry lc) (filter ?inc hs2)) = None"
    unfolding those_eq_None using mset_eq_setD [OF e] by (rule arg_cong)
  then show "map_option (\<lambda>r. mset (res_signedHeaderNames r)) (canonicalizeHeaders lc hs1 names) =
        map_option (\<lambda>r. mset (res_signedHeaderNames r)) (canonicalizeHeaders lc hs2 names)"
    using n
    by (cases "those (map (headerEntry lc) (filter ?inc hs1))";
        cases "those (map (headerEntry lc) (filter ?inc hs2))")
       (simp_all add: canonicalizeHeaders_eq)
qed

lemma createContext_reordered:
  assumes h: "mset (headers r1) = mset (headers r2)"
      and p: "canonicalizeSearchParams lc (params r1) = canonicalizeSearchParams lc (params r2)"
      and m: "method' r1 = method' r2" and u: "url r1 = url r2"
  shows "map_sum id signature (createContext hmacHex lc numToString credentials r1 options) =
         map_sum id signature (createContext hmacHex lc numToString credentials r2 options)"
    and "map_sum id canonicalRequest (createContext hmacHex lc numToString credentials r1 options) =
         map_sum id canonicalRequest (createContext hmacHex lc numToString credentials r2 options)"
    and "map_sum id (\<lambda>c. mset (signedHeaderNames c))
           (createContext hmacHex lc numToString credentials r1 options) =
         map_sum id (\<lambda>c. mset (signedHeaderNames c))
           (createContext hmacHex lc numToString credentials r2 options)"
proof -
  note hm = canonicalizeHeaders_mset [OF h, of lc "headerNamesToSign options"]
  show "map_sum id signature (createContext hmacHex lc numToString credentials r1 options) =
        map_sum id signature (createContext hmacHex lc numToString credentials r2 options)"
    using hm p m u
    by (cases "canonicalizeHeaders lc (headers r1) (headerNamesToSign options)";
        cases "canonicalizeHeaders lc (headers r2) (headerNamesToSign options)")
       (auto simp: createContext_def Let_def split: option.splits sum.splits)
  show "map_sum id canonicalRequest (createContext hmacHex lc numToString credentials r1 options) =
        map_sum id canonicalRequest (createContext hmacHex lc numToString credentials r2 options)"
    using hm p m u
    by (cases "canonicalizeHeaders lc (headers r1) (headerNamesToSign options)";
        cases "canonicalizeHeaders lc (headers r2) (headerNamesToSign options)")
       (auto simp: createContext_def Let_def split: option.splits sum.splits)
  show "map_sum id (\<lambda>c. mset (signedHeaderNames c))
           (createContext hmacHex lc numToString credentials r1 options) =
         map_sum id (\<lambda>c. mset (signedHeaderNames c))
           (createContext hmacHex lc numToString credentials r2 options)"
    using hm p m u
    by (cases "canonicalizeHeaders lc (headers r1) (headerNamesToSign options)";
        cases "canonicalizeHeaders lc (headers r2) (headerNamesToSign options)")
       (auto simp: createContext_def Let_def split: option.splits sum.splits)
qed

lemma reordered_names_differ:
  "mset (headers reorderedRequestA) = mset (headers reorderedRequestB) \<and>
   map_option mset (params reorderedRequestA) = map_option mset (params reorderedRequestB) \<and>
   method' reorderedRequestA = method' reorderedRequestB \<and>
   url reorderedRequestA = url reorderedRequestB \<and>
   map_sum id signedHeaderNames
     (createContext symbolicHmac toLowerCaseASCII numberToStringInteger goldenCredential reorderedRequestA goldenOptions) =
     Inr [js ''host'', js ''x-bce-date''] \<and>
   map_sum id signedHeaderNames
     (createContext symbolicHmac toLowerCaseASCII numberToStringInteger goldenCredential reorderedRequestB goldenOptions) =
     Inr [js ''x-bce-date'', js ''host'']"
proof -
  have a: "canonicalizeHeaders toLowerCaseASCII (headers reorderedRequestA) None =
     Some \<lparr>res_signedHeaderNames = [js ''host'', js ''x-bce-date''],
           res_canonicalizedHeaders = js ''host:bj.bcebos.com'' @ [0x0A] @ js ''x-bce-date:d''\<rparr>"
    by (simp add: reorderedRequestA_def eval_defs)
  have b: "canonicalizeHeaders toLowerCaseASCII (headers reorderedRequestB) None =
     Some \<lparr>res_signedHeaderNames = [js ''x-bce-date'', js ''host''],
           res_canonicalizedHeaders = js ''host:bj.bcebos.com'' @ [0x0A] @ js ''x-bce-date:d''\<rparr>"
    by (simp add: reorderedRequestB_def eval_defs)
  have qa: "canonicalizeSearchParams toLowerCaseASCII (params reorderedRequestA) = Some (js ''a=1&b=2'')"
    by (simp add: reorderedRequestA_def eval_defs)
  have qb: "canonicalizeSearchParams toLowerCaseASCII (params reorderedRequestB) = Some (js ''a=1&b=2'')"
    by (simp add: reorderedRequestB_def eval_defs)
  have o: "headerNamesToSign goldenOptions = None" by (simp add: goldenOptions_def)
  have na: "map_sum id signedHeaderNames
     (createContext symbolicHmac toLowerCaseASCII numberToStringInteger goldenCredential reorderedRequestA goldenOptions) =
     Inr [js ''host'', js ''x-bce-date'']"
    by (simp add: createContext_def o a qa hash_def symbolicHmac_def Let_def)
  have nb: "map_sum id signedHeaderNames
     (createContext symbolicHmac toLowerCaseASCII numberToStringInteger goldenCredential reorderedRequestB goldenOptions) =
     Inr [js ''x-bce-date'', js ''host'']"
    by (simp add: createContext_def o b qb hash_def symbolicHmac_def Let_def)
  have e: "mset (headers reorderedRequestA) = mset (headers reorderedRequestB)"
          "map_option mset (params reorderedRequestA) = map_option mset (params reorderedRequestB)"
          "method' reorderedRequestA = method' reorderedRequestB"
          "url reorderedRequestA = url reorderedRequestB"
    by (simp_all add: reorderedRequestA_def reorderedRequestB_def add_mset_commute)
  from e na nb show ?thesis by simp
qed

text \<open>
  C7: two requests with the same multiset of header entries, the same multiset of query
  parameters (or both without parameters), the same method and the same url have the
  same canonical request and the same signature, and fail together; their signed header
  names are the same up to order, and the order can differ.
\<close>

theorem signature_order_invariant:
  "(mset (headers r1) = mset (headers r2) \<and>
    map_option mset (params r1) = map_option mset (params r2) \<and>
    method' r1 = method' r2 \<and> url r1 = url r2 \<longrightarrow>
      map_sum id signature (createContext hmacHex lc numToString credentials r1 options) =
        map_sum id signature (createContext hmacHex lc numToString credentials r2 options) \<and>
      map_sum id canonicalRequest (createContext hmacHex lc numToString credentials r1 options) =
        map_sum id canonicalRequest (createContext hmacHex lc numToString credentials r2 options) \<and>
      map_sum id (\<lambda>c. mset (signedHeaderNames c))
          (createContext hmacHex lc numToString credentials r1 options) =
        map_sum id (\<lambda>c. mset (signedHeaderNames c))
          (createContext hmacHex lc numToString credentials r2 options)) \<and>
   (\<exists>a b. mset (headers a) = mset (headers b) \<and>
          map_option mset (params a) = map_option mset (params b) \<and>
          method' a = method' b \<and> url a = url b \<and>
          map_sum id signedHeaderNames
            (createContext symbolicHmac toLowerCaseASCII numberToStringInteger goldenCredential a goldenOptions) \<noteq>
          map_sum id signedHeaderNames
            (createContext symbolicHmac toLowerCaseASCII numberToStringInteger goldenCredential b goldenOptions))"
proof -
  have inv: "mset (headers r1) = mset (headers r2) \<and>
    map_option mset (params r1) = map_option mset (params r2) \<and>
    method' r1 = method' r2 \<and> url r1 = url r2 \<longrightarrow>
      map_sum id signature (createContext hmacHex lc numToString credentials r1 options) =
        map_sum id signature (createContext hmacHex lc numToString credentials r2 options) \<and>
      map_sum id canonicalRequest (createContext hmacHex lc numToString credentials r1 options) =
        map_sum id canonicalRequest (createContext hmacHex lc numToString credentials r2 options) \<and>
      map_sum id (\<lambda>c. mset (signedHeaderNames c))
          (createContext hmacHex lc numToString credentials r1 options) =
        map_sum id (\<lambda>c. mset (signedHeaderNames c))
          (createContext hmacHex lc numToString credentials r2 options)"
  proof (intro impI, elim conjE)
    assume h: "mset (headers r1) = mset (headers r2)"
       and p: "map_option mset (params r1) = map_option mset (params r2)"
       and m: "method' r1 = method' r2" and u: "url r1 = url r2"
    have q: "canonicalizeSearchParams lc (params r1) = canonicalizeSearchParams lc (params r2)"
    proof (cases "params r1")
      case None
      with p show ?thesis by simp
    next
      case (Some ps1)
      with p obtain ps2 where ps2: "params r2 = Some ps2" and ms: "mset ps1 = mset ps2"
        by (cases "params r2") simp_all
      from canonicalizeSearchParams_mset [OF ms, of lc] show ?thesis
        by (simp add: Some ps2)
    qed
    from createContext_reordered [OF h q m u, of hmacHex numToString credentials options]
    show "map_sum id signature (createContext hmacHex lc numToString credentials r1 options) =
        map_sum id signature (createContext hmacHex lc numToString credentials r2 options) \<and>
      map_sum id canonicalRequest (createContext hmacHex lc numToString credentials r1 options) =
        map_sum id canonicalRequest (createContext hmacHex lc numToString credentials r2 options) \<and>
      map_sum id (\<lambda>c. mset (signedHeaderNames c))
          (createContext hmacHex lc numToString credentials r1 options) =
        map_sum id (\<lambda>c. mset (signedHeaderNames c))
          (createContext hmacHex lc numToString credentials r2 options)"
      by simp
  qed
  have "js ''host'' \<noteq> js ''x-bce-date''" by (simp add: js_def)
  with reordered_names_differ
  have dif: "\<exists>a b. mset (headers a) = mset (headers b) \<and>
          map_option mset (params a) = map_option mset (params b) \<and>
          method' a = method' b \<and> url a = url b \<and>
          map_sum id signedHeaderNames
            (createContext symbolicHmac toLowerCaseASCII numberToStringInteger goldenCredential a goldenOptions) \<noteq>
          map_sum id signedHeaderNames
            (createContext symbolicHmac toLowerCaseASCII numberToStringInteger goldenCredential b goldenOptions)"
    by (intro exI [of _ reorderedRequestA] exI [of _ reorderedRequestB]) simp
  from inv dif show ?thesis by (rule conjI)
qed

theorem signature_order_invariant_witness:
  "map_sum id signature
     (createContext symbolicHmac toLowerCaseASCII numberToStringInteger goldenCredential reorderedRequestA goldenOptions) =
   map_sum id signature
     (createContext symbolicHmac toLowerCaseASCII numberToStringInteger goldenCredential reorderedRequestB goldenOptions) \<and>
   map_sum id canonicalRequest
     (createContext symbolicHmac toLowerCaseASCII numberToStringInteger goldenCredential reorderedRequestA goldenOptions) =
   map_sum id canonicalRequest
     (createContext symbolicHmac toLowerCaseASCII numberToStringInteger goldenCredential reorderedRequestB goldenOptions) \<and>
   map_sum id signedHeaderNames
     (createContext symbolicHmac toLowerCaseASCII numberToStringInteger goldenCredential reorderedRequestA goldenOptions) =
     Inr [js ''host'', js ''x-bce-date''] \<and>
   map_sum id signedHeaderNames
     (createContext symbolicHmac toLowerCaseASCII numberToStringInteger goldenCredential reorderedRequestB goldenOptions) =
     Inr [js ''x-bce-date'', js ''host'']"
  using signature_order_invariant
          [of reorderedRequestA reorderedRequestB symbolicHmac toLowerCaseASCII numberToStringInteger
              goldenCredential
              goldenOptions]
        reordered_names_differ
  by simp

end
